theory Spec2Isabelle
  imports Main "HOL-Library.Word"
begin

section \<open>What reflection reports: kinds, types, struct fields\<close>

text \<open>
  The package works on its inputs through Go's \<^verbatim>\<open>reflect\<close> library only. A
  \<^verbatim>\<open>reflect.Type\<close> is modelled by the structure of the type it describes; two descriptors
  are the same map key exactly when the Go types are identical, which is equality of this
  datatype.
\<close>

datatype kind =
    Invalid | Bool | Int' | Int8 | Int16 | Int32 | Int64
  | Uint | Uint8 | Uint16 | Uint32 | Uint64 | Uintptr
  | Float32 | Float64 | Complex64 | Complex128
  | Array | Chan | Func | Interface | Map | Ptr | Slice | String | Struct | UnsafePointer

text \<open>
  What the compiler recorded in a type's descriptor about the method \<^verbatim>\<open>Error() string\<close>,
  declared on the type or promoted from an embedded field: it is in no method set
  (\<open>NoErrorMethod\<close>), in the method set of the type and of the pointer type to it
  (\<open>ValueReceiver\<close>), or in the method set of the pointer type only (\<open>PointerReceiver\<close>).
\<close>

datatype errmeth = NoErrorMethod | ValueReceiver | PointerReceiver

text \<open>
  \<^verbatim>\<open>reflect.StructField\<close>: the field's name, its package path (empty exactly for an
  exported field), its type and its tag. A struct tag is kept as the list of its
  \<^verbatim>\<open>key:"value"\<close> pairs in the order they are written.
\<close>

datatype 't struct_field =
  StructField (Name: string) (PkgPath: string) (Type: 't) (Tag: "(string \<times> string) list")

datatype rtype =
    Basic kind
  | PtrTo rtype
  | StructOf errmeth "rtype struct_field list"
  | FuncOf "rtype list" "rtype list"
  | InterfaceOf bool
  | SliceOf rtype
  | ArrayOf nat rtype
  | MapOf rtype rtype
  | ChanOf rtype
  | Named string errmeth rtype

text \<open>
  \<open>Basic k\<close> is the predeclared type of kind \<open>k\<close> (\<^verbatim>\<open>bool\<close>, \<^verbatim>\<open>int\<close>, \<^verbatim>\<open>float64\<close>,
  \<^verbatim>\<open>string\<close>, ...). \<open>InterfaceOf b\<close> is an interface type literal, \<open>b\<close> telling whether
  its method set holds \<^verbatim>\<open>Error() string\<close>: \<^verbatim>\<open>interface{}\<close> is \<open>InterfaceOf False\<close>.
  \<open>StructOf m fs\<close> is the struct type literal with the fields \<open>fs\<close>; it has methods
  only by promotion from embedded fields (\<^verbatim>\<open>struct{ error }\<close> is a \<open>StructOf ValueReceiver\<close>).
  \<open>Named n m u\<close> is the defined type \<open>n\<close> with underlying type \<open>u\<close>.
\<close>

fun Kind :: "rtype \<Rightarrow> kind" where
  "Kind (Basic k) = k"
| "Kind (PtrTo _) = Ptr"
| "Kind (StructOf _ _) = Struct"
| "Kind (FuncOf _ _) = Func"
| "Kind (InterfaceOf _) = Interface"
| "Kind (SliceOf _) = Slice"
| "Kind (ArrayOf _ _) = Array"
| "Kind (MapOf _ _) = Map"
| "Kind (ChanOf _) = Chan"
| "Kind (Named _ _ u) = Kind u"

text \<open>\<^verbatim>\<open>Type.Elem()\<close>; it panics on a type that has no element type (\<open>None\<close>).\<close>

fun Elem :: "rtype \<Rightarrow> rtype option" where
  "Elem (PtrTo t) = Some t"
| "Elem (SliceOf t) = Some t"
| "Elem (ArrayOf _ t) = Some t"
| "Elem (MapOf _ t) = Some t"
| "Elem (ChanOf t) = Some t"
| "Elem (Named _ _ u) = Elem u"
| "Elem _ = None"

text \<open>
  The fields of a struct type: \<^verbatim>\<open>NumField()\<close> is the length of this list and
  \<^verbatim>\<open>Field(i)\<close> its \<open>i\<close>-th element.
\<close>

fun FieldsOf :: "rtype \<Rightarrow> rtype struct_field list" where
  "FieldsOf (StructOf _ fs) = fs"
| "FieldsOf (Named _ _ u) = FieldsOf u"
| "FieldsOf _ = []"

text \<open>\<^verbatim>\<open>t.Implements(errorInterface)\<close>: the method set of \<open>t\<close> holds \<^verbatim>\<open>Error() string\<close>.\<close>

fun Implements_error :: "rtype \<Rightarrow> bool" where
  "Implements_error (InterfaceOf b) = b"
| "Implements_error (Named _ m u) =
     (m = ValueReceiver \<or> (case u of InterfaceOf b \<Rightarrow> b | _ \<Rightarrow> False))"
| "Implements_error (StructOf m _) = (m = ValueReceiver)"
| "Implements_error (PtrTo (Named _ m u)) =
     (m \<noteq> NoErrorMethod \<and> Kind u \<noteq> Ptr \<and> Kind u \<noteq> Interface)"
| "Implements_error (PtrTo (StructOf m _)) = (m \<noteq> NoErrorMethod)"
| "Implements_error _ = False"

text \<open>\<^verbatim>\<open>StructTag.Lookup\<close> and \<^verbatim>\<open>StructTag.Get\<close>: the first pair with the key.\<close>

definition Lookup :: "(string \<times> string) list \<Rightarrow> string \<Rightarrow> string option" where
  "Lookup tag key = map_of tag key"

definition Get :: "(string \<times> string) list \<Rightarrow> string \<Rightarrow> string" where
  "Get tag key = (case Lookup tag key of None \<Rightarrow> [] | Some v \<Rightarrow> v)"

text \<open>\<^verbatim>\<open>strconv.ParseBool\<close>; \<open>None\<close> is its syntax error.\<close>

definition ParseBool :: "string \<Rightarrow> bool option" where
  "ParseBool s =
     (if s \<in> set [''1'', ''t'', ''T'', ''TRUE'', ''true'', ''True''] then Some True
      else if s \<in> set [''0'', ''f'', ''F'', ''FALSE'', ''false'', ''False''] then Some False
      else None)"

section \<open>Values, errors and panics\<close>

text \<open>
  A value held in an \<^verbatim>\<open>interface{}\<close>. \<open>NilV\<close> is the nil interface. \<open>IntV\<close> holds a Go
  \<^verbatim>\<open>int\<close> (64 bits) and \<open>Float64V\<close> the bits of a \<^verbatim>\<open>float64\<close>. \<open>StructV t vs\<close> is a struct
  of type \<open>t\<close> with field values \<open>vs\<close>, \<open>Pointer v\<close> a non-nil pointer to a variable that
  holds \<open>v\<close>, \<open>NilOf t\<close> the nil value of the pointer, slice, map, channel or function type
  \<open>t\<close>, and \<open>Opaque t n\<close> any other value of type \<open>t\<close>.
\<close>

datatype gval =
    NilV
  | BoolV bool
  | IntV "64 word"
  | StringV string
  | Float64V "64 word"
  | StructV rtype "gval list"
  | Pointer gval
  | NilOf rtype
  | Opaque rtype nat

text \<open>\<^verbatim>\<open>reflect.TypeOf\<close>: the dynamic type, \<open>None\<close> for the nil interface.\<close>

fun TypeOf :: "gval \<Rightarrow> rtype option" where
  "TypeOf NilV = None"
| "TypeOf (BoolV _) = Some (Basic Bool)"
| "TypeOf (IntV _) = Some (Basic Int')"
| "TypeOf (StringV _) = Some (Basic String)"
| "TypeOf (Float64V _) = Some (Basic Float64)"
| "TypeOf (StructV t _) = Some t"
| "TypeOf (Pointer v) = Some (PtrTo (case TypeOf v of None \<Rightarrow> InterfaceOf False | Some t \<Rightarrow> t))"
| "TypeOf (NilOf t) = Some t"
| "TypeOf (Opaque t _) = Some t"

text \<open>
  Every \<^verbatim>\<open>fmt.Errorf\<close> of the package is one constructor of \<open>error\<close>, carrying the
  arguments of its format string; \<open>ErrorString\<close> is an error made elsewhere. A panic
  carries a \<open>fault\<close>, the value \<^verbatim>\<open>recover\<close> would return for it: a run-time error of Go or
  a message of \<^verbatim>\<open>reflect\<close>; a \<^verbatim>\<open>reflect.ValueError\<close> with its method and kind ("reflect:
  call of METHOD on KIND Value"); \<^verbatim>\<open>reflect\<close>'s "Elem of invalid type"; an index out of
  range with the index and the length; a value or an error given to \<^verbatim>\<open>panic\<close>; or one of
  the two messages the package itself panics with. \<^verbatim>\<open>panic(nil)\<close> is \<open>PanicValue NilV\<close>
  where the run time hands \<^verbatim>\<open>recover\<close> the nil it was given (Go before 1.21, or
  \<^verbatim>\<open>GODEBUG=panicnil=1\<close>), and \<open>PanicNilError\<close>, the \<^verbatim>\<open>*runtime.PanicNilError\<close>,
  where it does not (Go 1.21 and later).
\<close>

datatype error =
    NotAStruct gval
  | NotAFunc gval
  | WrongNumIn string nat
  | WrongNumOut string nat
  | LastReturnNotError string rtype
  | AlreadyRegistered rtype string
  | LoaderPanicked string fault
  | Errorf_v error
  | NotAPointer gval
  | NotAPointerToStruct gval
  | InvalidRequiredTag string
  | Required string
  | NoLoader rtype
  | CannotPopulate string error
  | NotABool gval
  | NotAString gval
  | NotAnInt gval
  | NotAFloat gval
  | ErrorString string
and fault =
    RuntimeError string
  | ValueError string kind
  | ElemOfInvalidType rtype
  | IndexOutOfRange nat nat
  | PanicNilError
  | PanicValue gval
  | PanicError error
  | CouldNotConfigure error
  | CouldNotInit error

datatype 'a outcome = Return 'a | Panic fault

text \<open>Calling \<^verbatim>\<open>Kind()\<close> on the nil \<^verbatim>\<open>reflect.Type\<close> that \<^verbatim>\<open>TypeOf(nil)\<close> returns.\<close>

definition nilTypeKind :: fault where
  "nilTypeKind = RuntimeError ''invalid memory address or nil pointer dereference''"

section \<open>The converter registry\<close>

text \<open>
  \<^verbatim>\<open>graphql.Output\<close> belongs to the GraphQL library; the package only stores and returns
  such values. A nil \<^verbatim>\<open>graphql.Output\<close> is \<open>None\<close> of \<open>Output option\<close>.
\<close>

datatype Output =
  graphql_Boolean | graphql_String | graphql_Int | graphql_Float | graphql_Other string

text \<open>
  A Go function as \<^verbatim>\<open>Register\<close> sees it: its name (what
  \<^verbatim>\<open>runtime.FuncForPC(...).Name()\<close> gives), the types of its parameters and of its
  results, and what calling it through reflection on one non-nil argument does: it returns
  its two results, the second one as the error it holds (\<open>None\<close> when \<^verbatim>\<open>IsNil\<close>), or it
  panics, which covers the panic of \<^verbatim>\<open>reflect\<close> on an argument that is not assignable to
  the parameter. The argument of \<^verbatim>\<open>Register\<close> is an \<^verbatim>\<open>interface{}\<close>: it is \<open>Fn g\<close>
  when its dynamic type has kind \<^verbatim>\<open>Func\<close> (a nil function value is a \<open>g\<close> with the
  empty name whose call panics), and \<open>NonFn v\<close> otherwise, the nil interface included.
\<close>

record gofunc =
  fname :: string
  fin :: "rtype list"
  fout :: "rtype list"
  fcall :: "gval \<Rightarrow> (gval \<times> error option) outcome"

datatype callable = Fn gofunc | NonFn gval

text \<open>
  \<^verbatim>\<open>ArgLoader\<close>. A stored loader function returns a \<^verbatim>\<open>reflect.Value\<close>, which is
  \<open>None\<close> for the zero Value, and an error.
\<close>

record ArgLoader =
  loaderFuncs :: "rtype \<rightharpoonup> (gval \<Rightarrow> gval option \<times> error option)"
  gqlTypes :: "rtype \<rightharpoonup> Output option"

definition Empty :: ArgLoader where
  "Empty = \<lparr>loaderFuncs = Map.empty, gqlTypes = Map.empty\<rparr>"

text \<open>
  \<^verbatim>\<open>callable.Call([]reflect.Value{reflect.ValueOf(i)})\<close>: \<^verbatim>\<open>reflect.ValueOf\<close> of the nil
  interface is the zero Value, on which \<^verbatim>\<open>Call\<close> panics before it runs the function.
\<close>

definition Call :: "gofunc \<Rightarrow> gval \<Rightarrow> (gval \<times> error option) outcome" where
  "Call g i =
     (case TypeOf i of
        None \<Rightarrow> Panic (RuntimeError ''reflect: Call using zero Value argument'')
      | Some _ \<Rightarrow> fcall g i)"

text \<open>\<^verbatim>\<open>returnvals[1].IsNil()\<close> panics unless the kind of the result type has a nil.\<close>

definition IsNil :: "kind \<Rightarrow> error option \<Rightarrow> bool outcome" where
  "IsNil k r =
     (if k \<in> {Chan, Func, Interface, Map, Ptr, Slice, UnsafePointer} then Return (r = None)
      else Panic (ValueError ''reflect.Value.IsNil'' k))"

text \<open>
  The deferred function of the closure \<^verbatim>\<open>wrapped\<close>, run when the body panics with \<open>p\<close>.
  \<^verbatim>\<open>p := recover()\<close> is nil exactly for \<open>PanicValue NilV\<close>. \<^verbatim>\<open>if p != nil\<close> assigns the
  named result \<^verbatim>\<open>err\<close>; otherwise both named results keep their zero values, the zero
  Value and the nil error.
\<close>

definition recovered :: "string \<Rightarrow> fault \<Rightarrow> gval option \<times> error option" where
  "recovered name p =
     (if p \<noteq> PanicValue NilV then (None, Some (LoaderPanicked name p))
      else (None, None))"

text \<open>
  The closure \<^verbatim>\<open>wrapped\<close> that \<^verbatim>\<open>Register\<close> stores. Every panic of its body, of
  \<^verbatim>\<open>Call\<close>, of indexing \<^verbatim>\<open>returnvals[1]\<close> (\<^verbatim>\<open>Register\<close> wraps functions with two results
  only) and of \<^verbatim>\<open>IsNil\<close>, reaches the deferred function.
\<close>

definition wrapped :: "gofunc \<Rightarrow> gval \<Rightarrow> gval option \<times> error option" where
  "wrapped g i =
     (case Call g i of
        Panic p \<Rightarrow> recovered (fname g) p
      | Return (r0, r1) \<Rightarrow>
          if length (fout g) < 2 then
            recovered (fname g) (IndexOutOfRange 1 (length (fout g)))
          else
            (case IsNil (Kind (fout g ! 1)) r1 of
               Panic p \<Rightarrow> recovered (fname g) p
             | Return _ \<Rightarrow>
                 (case r1 of
                    Some err \<Rightarrow> (None, Some (Errorf_v err))
                  | None \<Rightarrow> (Some r0, None))))"

text \<open>
  \<^verbatim>\<open>Register\<close> returns the registry after the call and the error, or panics. The type of
  \<open>Fn g\<close> has kind \<^verbatim>\<open>Func\<close>, \<^verbatim>\<open>NumIn()\<close> is \<open>length (fin g)\<close> and \<^verbatim>\<open>Out(k)\<close> is
  \<open>fout g ! k\<close>, read only after \<^verbatim>\<open>NumOut()\<close> was found to be 2.
\<close>

definition Register :: "ArgLoader \<Rightarrow> callable \<Rightarrow> Output option \<Rightarrow> ArgLoader \<times> error option outcome" where
  "Register e f gqlType =
     (case f of
        NonFn v \<Rightarrow>
          (case TypeOf v of
             None \<Rightarrow> (e, Panic nilTypeKind)
           | Some t \<Rightarrow> (e, Return (Some (NotAFunc v))))
      | Fn g \<Rightarrow>
          if length (fin g) \<noteq> 1 then
            (e, Return (Some (WrongNumIn (fname g) (length (fin g)))))
          else if length (fout g) \<noteq> 2 then
            (e, Return (Some (WrongNumOut (fname g) (length (fout g)))))
          else if \<not> Implements_error (fout g ! 1) then
            (e, Return (Some (LastReturnNotError (fname g) (fout g ! 1))))
          else
            (case loaderFuncs e (fout g ! 0) of
               Some _ \<Rightarrow> (e, Return (Some (AlreadyRegistered (fout g ! 0) (fname g))))
             | None \<Rightarrow>
                 (e\<lparr>loaderFuncs := (loaderFuncs e)(fout g ! 0 \<mapsto> wrapped g),
                    gqlTypes := (gqlTypes e)(fout g ! 0 \<mapsto> gqlType)\<rparr>,
                  Return None)))"

section \<open>The built-in converters and the default loader\<close>

definition LoadBool :: "gval \<Rightarrow> bool \<times> error option" where
  "LoadBool i = (case i of BoolV b \<Rightarrow> (b, None) | _ \<Rightarrow> (False, Some (NotABool i)))"

definition LoadString :: "gval \<Rightarrow> string \<times> error option" where
  "LoadString i = (case i of StringV b \<Rightarrow> (b, None) | _ \<Rightarrow> ([], Some (NotAString i)))"

definition LoadInt :: "gval \<Rightarrow> 64 word \<times> error option" where
  "LoadInt i = (case i of IntV b \<Rightarrow> (b, None) | _ \<Rightarrow> (0, Some (NotAnInt i)))"

definition LoadFloat :: "gval \<Rightarrow> 64 word \<times> error option" where
  "LoadFloat i = (case i of Float64V b \<Rightarrow> (b, None) | _ \<Rightarrow> (0, Some (NotAFloat i)))"

text \<open>The four converters as function values, with their Go signatures.\<close>

definition errorType :: rtype where
  "errorType = Named ''error'' NoErrorMethod (InterfaceOf True)"

definition LoadBool_func :: gofunc where
  "LoadBool_func =
     \<lparr>fname = ''github.com/btubbs/graphql-go-helpers.LoadBool'',
      fin = [InterfaceOf False], fout = [Basic Bool, errorType],
      fcall = (\<lambda>i. case LoadBool i of (b, err) \<Rightarrow> Return (BoolV b, err))\<rparr>"

definition LoadString_func :: gofunc where
  "LoadString_func =
     \<lparr>fname = ''github.com/btubbs/graphql-go-helpers.LoadString'',
      fin = [InterfaceOf False], fout = [Basic String, errorType],
      fcall = (\<lambda>i. case LoadString i of (b, err) \<Rightarrow> Return (StringV b, err))\<rparr>"

definition LoadInt_func :: gofunc where
  "LoadInt_func =
     \<lparr>fname = ''github.com/btubbs/graphql-go-helpers.LoadInt'',
      fin = [InterfaceOf False], fout = [Basic Int', errorType],
      fcall = (\<lambda>i. case LoadInt i of (b, err) \<Rightarrow> Return (IntV b, err))\<rparr>"

definition LoadFloat_func :: gofunc where
  "LoadFloat_func =
     \<lparr>fname = ''github.com/btubbs/graphql-go-helpers.LoadFloat'',
      fin = [InterfaceOf False], fout = [Basic Float64, errorType],
      fcall = (\<lambda>i. case LoadFloat i of (b, err) \<Rightarrow> Return (Float64V b, err))\<rparr>"

definition DefaultLoaders :: "(callable \<times> Output option) list" where
  "DefaultLoaders =
     [(Fn LoadBool_func, Some graphql_Boolean),
      (Fn LoadString_func, Some graphql_String),
      (Fn LoadInt_func, Some graphql_Int),
      (Fn LoadFloat_func, Some graphql_Float)]"

text \<open>The loop of \<^verbatim>\<open>New\<close>, which returns \<^verbatim>\<open>(nil, err)\<close> at the first failed registration.\<close>

fun registerAll :: "ArgLoader \<Rightarrow> (callable \<times> Output option) list \<Rightarrow> (ArgLoader option \<times> error option) outcome" where
  "registerAll ec [] = Return (Some ec, None)"
| "registerAll ec (l # ls) =
     (case Register ec (fst l) (snd l) of
        (ec', Panic p) \<Rightarrow> Panic p
      | (ec', Return (Some err)) \<Rightarrow> Return (None, Some err)
      | (ec', Return None) \<Rightarrow> registerAll ec' ls)"

definition New :: "(ArgLoader option \<times> error option) outcome" where
  "New = registerAll Empty DefaultLoaders"

text \<open>
  \<^verbatim>\<open>init\<close> assigns the pointer that \<^verbatim>\<open>New\<close> returns to the package variable
  \<^verbatim>\<open>defaultLoader\<close>, or panics. \<open>defaultLoader\<close> is the registry the variable points to
  from then on (\<open>init\<close> returns it, lemma \<open>init_defaultLoader\<close>).
\<close>

definition init :: "ArgLoader option outcome" where
  "init =
     (case New of
        Panic p \<Rightarrow> Panic p
      | Return (ec, Some err) \<Rightarrow> Panic (CouldNotInit err)
      | Return (ec, None) \<Rightarrow> Return ec)"

definition defaultLoader :: ArgLoader where
  "defaultLoader = (case init of Return (Some ec) \<Rightarrow> ec | _ \<Rightarrow> Empty)"

section \<open>Deriving the schema\<close>

text \<open>
  \<^verbatim>\<open>graphql.ArgumentConfig\<close> with the two fields the package sets, \<open>ArgType\<close> being its
  field \<^verbatim>\<open>Type\<close>; \<^verbatim>\<open>graphql.FieldConfigArgument\<close> is a map from argument names to these.
\<close>

record ArgumentConfig =
  ArgType :: "Output option"
  Description :: string

definition argTag :: string where "argTag = ''arg''"
definition requiredTag :: string where "requiredTag = ''required''"
definition descTag :: string where "descTag = ''desc''"

text \<open>
  The loop of \<^verbatim>\<open>SafeArgsConfig\<close> over the fields in declaration order. Reading a missing
  key of \<^verbatim>\<open>e.gqlTypes\<close> gives the nil \<^verbatim>\<open>graphql.Output\<close>.
\<close>

fun argsOfFields :: "ArgLoader \<Rightarrow> rtype struct_field list \<Rightarrow> (string \<rightharpoonup> ArgumentConfig) \<Rightarrow> (string \<rightharpoonup> ArgumentConfig)" where
  "argsOfFields e [] out = out"
| "argsOfFields e (field # rest) out =
     (case Lookup (Tag field) argTag of
        None \<Rightarrow> argsOfFields e rest out
      | Some argName \<Rightarrow>
          argsOfFields e rest
            (out(argName \<mapsto>
               \<lparr>ArgType = (case gqlTypes e (Type field) of None \<Rightarrow> None | Some g \<Rightarrow> g),
                Description = Get (Tag field) descTag\<rparr>)))"

definition SafeArgsConfig :: "ArgLoader \<Rightarrow> gval \<Rightarrow> ((string \<rightharpoonup> ArgumentConfig) option \<times> error option) outcome" where
  "SafeArgsConfig e i =
     (case TypeOf i of
        None \<Rightarrow> Panic nilTypeKind
      | Some iType \<Rightarrow>
          (case (if Kind iType = Ptr then Elem iType else TypeOf i) of
             None \<Rightarrow> Panic (ElemOfInvalidType iType)
           | Some structType \<Rightarrow>
               if Kind structType \<noteq> Struct then Return (None, Some (NotAStruct i))
               else Return (Some (argsOfFields e (FieldsOf structType) Map.empty), None)))"

definition ArgsConfig :: "ArgLoader \<Rightarrow> gval \<Rightarrow> (string \<rightharpoonup> ArgumentConfig) option outcome" where
  "ArgsConfig e i =
     (case SafeArgsConfig e i of
        Panic p \<Rightarrow> Panic p
      | Return (conf, Some err) \<Rightarrow> Panic (CouldNotConfigure err)
      | Return (conf, None) \<Rightarrow> Return conf)"

section \<open>Populating a struct\<close>

text \<open>
  \<^verbatim>\<open>structVal.Field(i).Set(toSet)\<close> on the \<^verbatim>\<open>reflect.Value\<close> \<open>structVal\<close>, which is
  \<open>None\<close> (the zero Value) when the destination is a nil pointer. \<^verbatim>\<open>Field\<close> panics on
  the zero Value and on a value that is no struct; \<^verbatim>\<open>Set\<close> panics on an unexported
  field and on the zero Value as its argument. A value stored under the key \<open>t\<close> of the
  registry is the first result of a function whose first result type is \<open>t\<close>, so it is
  assignable to a field of type \<open>t\<close>.
\<close>

definition SetField :: "gval option \<Rightarrow> nat \<Rightarrow> rtype struct_field \<Rightarrow> gval option \<Rightarrow> gval option outcome" where
  "SetField structVal i field toSet =
     (case structVal of
        None \<Rightarrow> Panic (ValueError ''reflect.Value.Field'' Invalid)
      | Some (StructV t vals) \<Rightarrow>
          if length vals \<le> i then Panic (RuntimeError ''reflect: Field index out of range'')
          else if PkgPath field \<noteq> [] then
            Panic (RuntimeError ''reflect: reflect.Value.Set using value obtained using unexported field'')
          else
            (case toSet of
               None \<Rightarrow> Panic (ValueError ''reflect.Value.Set'' Invalid)
             | Some v \<Rightarrow> Return (Some (StructV t (vals[i := v]))))
      | Some v \<Rightarrow>
          Panic (ValueError ''reflect.Value.Field''
                   (case TypeOf v of None \<Rightarrow> Interface | Some t \<Rightarrow> Kind t)))"

text \<open>
  The loop of \<^verbatim>\<open>LoadArgs\<close>: the fields still to visit, the index \<open>i\<close> of the first of
  them, and the struct as the fields visited so far have left it. It gives the struct as
  the call leaves it together with the error returned, or the panic.
\<close>

fun loadFields :: "ArgLoader \<Rightarrow> (string \<rightharpoonup> gval) \<Rightarrow> rtype struct_field list \<Rightarrow> nat \<Rightarrow> gval option \<Rightarrow> gval option \<times> error option outcome" where
  "loadFields e args [] i structVal = (structVal, Return None)"
| "loadFields e args (field # rest) i structVal =
     (case Lookup (Tag field) argTag of
        None \<Rightarrow> loadFields e args rest (Suc i) structVal
      | Some argKey \<Rightarrow>
          (case args argKey of
             None \<Rightarrow>
               (case Lookup (Tag field) requiredTag of
                  None \<Rightarrow> loadFields e args rest (Suc i) structVal
                | Some requiredVal \<Rightarrow>
                    (case ParseBool requiredVal of
                       None \<Rightarrow> (structVal, Return (Some (InvalidRequiredTag requiredVal)))
                     | Some required \<Rightarrow>
                         if required then (structVal, Return (Some (Required argKey)))
                         else loadFields e args rest (Suc i) structVal))
           | Some interfaceVal \<Rightarrow>
               (case loaderFuncs e (Type field) of
                  None \<Rightarrow> (structVal, Return (Some (NoLoader (Type field))))
                | Some loaderFunc \<Rightarrow>
                    (case loaderFunc interfaceVal of
                       (toSet, Some err) \<Rightarrow>
                         (structVal, Return (Some (CannotPopulate (Name field) err)))
                     | (toSet, None) \<Rightarrow>
                         (case SetField structVal i field toSet of
                            Panic p \<Rightarrow> (structVal, Panic p)
                          | Return structVal' \<Rightarrow> loadFields e args rest (Suc i) structVal')))))"

text \<open>\<^verbatim>\<open>reflect.ValueOf(c).Elem()\<close> for a \<open>c\<close> of pointer kind, and the destination after the call.\<close>

fun ElemValue :: "gval \<Rightarrow> gval option" where
  "ElemValue (Pointer v) = Some v"
| "ElemValue _ = None"

fun pointee_update :: "gval \<Rightarrow> gval option \<Rightarrow> gval" where
  "pointee_update (Pointer _) (Some v') = Pointer v'"
| "pointee_update c _ = c"

definition LoadArgs :: "ArgLoader \<Rightarrow> (string \<rightharpoonup> gval) \<Rightarrow> gval \<Rightarrow> gval \<times> error option outcome" where
  "LoadArgs e args c =
     (case TypeOf c of
        None \<Rightarrow> (c, Panic nilTypeKind)
      | Some pointerType \<Rightarrow>
          if Kind pointerType \<noteq> Ptr then (c, Return (Some (NotAPointer c)))
          else
            (case Elem pointerType of
               None \<Rightarrow> (c, Panic (ElemOfInvalidType pointerType))
             | Some structType \<Rightarrow>
                 if Kind structType \<noteq> Struct then (c, Return (Some (NotAPointerToStruct c)))
                 else
                   (case loadFields e args (FieldsOf structType) 0 (ElemValue c) of
                      (structVal', r) \<Rightarrow> (pointee_update c structVal', r))))"

section \<open>The demonstration program's argument struct\<close>

text \<open>
  \<^verbatim>\<open>type helloArgs struct\<close> of the demonstration program, whose resolver calls
  \<^verbatim>\<open>LoadArgs(p, &args)\<close> on a fresh \<^verbatim>\<open>var args helloArgs\<close>.
\<close>

definition helloArgs :: rtype where
  "helloArgs =
     Named ''main.helloArgs'' NoErrorMethod
       (StructOf NoErrorMethod
          [StructField ''Name'' [] (Basic String)
             [(''arg'', ''name''), (''required'', ''true''), (''desc'', ''Your name'')],
           StructField ''Greeting'' [] (Basic String)
             [(''arg'', ''greeting''), (''desc'', ''How to say hello'')]])"

definition helloArgs_zero :: gval where
  "helloArgs_zero = StructV helloArgs [StringV [], StringV []]"

section \<open>Evaluation of the default loader\<close>

lemmas run_defs =
  LoadArgs_def SafeArgsConfig_def SetField_def wrapped_def recovered_def Call_def IsNil_def
  Lookup_def Get_def ParseBool_def argTag_def requiredTag_def descTag_def
  LoadBool_func_def LoadString_func_def LoadInt_func_def LoadFloat_func_def
  LoadBool_def LoadString_def LoadInt_def LoadFloat_def errorType_def
  helloArgs_def helloArgs_zero_def

lemma registerAll_default:
  "registerAll Empty DefaultLoaders =
     Return (Some \<lparr>loaderFuncs = [Basic Bool \<mapsto> wrapped LoadBool_func, Basic String \<mapsto> wrapped LoadString_func,
                                 Basic Int' \<mapsto> wrapped LoadInt_func, Basic Float64 \<mapsto> wrapped LoadFloat_func],
                   gqlTypes = [Basic Bool \<mapsto> Some graphql_Boolean, Basic String \<mapsto> Some graphql_String,
                                 Basic Int' \<mapsto> Some graphql_Int, Basic Float64 \<mapsto> Some graphql_Float]\<rparr>, None)"
  by (simp add: DefaultLoaders_def Register_def Empty_def LoadBool_func_def LoadString_func_def
        LoadInt_func_def LoadFloat_func_def errorType_def)

text \<open>\<^verbatim>\<open>init\<close> does not panic: the four built-in converters have the right signature.\<close>

lemma init_defaultLoader: "init = Return (Some defaultLoader)"
  by (simp add: defaultLoader_def init_def New_def registerAll_default)

lemma defaultLoader_eq:
  "defaultLoader =
     \<lparr>loaderFuncs = [Basic Bool \<mapsto> wrapped LoadBool_func, Basic String \<mapsto> wrapped LoadString_func,
                     Basic Int' \<mapsto> wrapped LoadInt_func, Basic Float64 \<mapsto> wrapped LoadFloat_func],
      gqlTypes = [Basic Bool \<mapsto> Some graphql_Boolean, Basic String \<mapsto> Some graphql_String,
                  Basic Int' \<mapsto> Some graphql_Int, Basic Float64 \<mapsto> Some graphql_Float]\<rparr>"
  by (simp add: defaultLoader_def init_def New_def registerAll_default)

lemma defaultLoader_String: "loaderFuncs defaultLoader (Basic String) = Some (wrapped LoadString_func)"
  by (simp add: defaultLoader_eq)

lemma defaultLoader_Int: "loaderFuncs defaultLoader (Basic Int') = Some (wrapped LoadInt_func)"
  by (simp add: defaultLoader_eq)

lemma defaultLoader_Bool: "loaderFuncs defaultLoader (Basic Bool) = Some (wrapped LoadBool_func)"
  by (simp add: defaultLoader_eq)

text \<open>
  The runs of the demonstration program's struct that the specification lists: both
  arguments given, \<^verbatim>\<open>name\<close> missing, a value of the wrong type for \<^verbatim>\<open>name\<close>, and the
  derived schema.
\<close>

lemma helloArgs_populated:
  "LoadArgs defaultLoader [''name'' \<mapsto> StringV ''Joe'', ''greeting'' \<mapsto> StringV ''Goodbye'']
     (Pointer helloArgs_zero)
   = (Pointer (StructV helloArgs [StringV ''Joe'', StringV ''Goodbye'']), Return None)"
  by (simp add: run_defs defaultLoader_String)

lemma helloArgs_missing_name:
  "LoadArgs defaultLoader [''greeting'' \<mapsto> StringV ''Hi''] (Pointer helloArgs_zero)
   = (Pointer helloArgs_zero, Return (Some (Required ''name'')))"
  by (simp add: run_defs defaultLoader_String)

lemma helloArgs_wrong_type:
  "LoadArgs defaultLoader [''name'' \<mapsto> IntV 42] (Pointer helloArgs_zero)
   = (Pointer helloArgs_zero,
      Return (Some (CannotPopulate ''Name'' (Errorf_v (NotAString (IntV 42))))))"
  by (simp add: run_defs defaultLoader_String)

lemma helloArgs_schema:
  "SafeArgsConfig defaultLoader helloArgs_zero
   = Return (Some [''name'' \<mapsto> \<lparr>ArgType = Some graphql_String, Description = ''Your name''\<rparr>,
                   ''greeting'' \<mapsto> \<lparr>ArgType = Some graphql_String, Description = ''How to say hello''\<rparr>],
             None)"
  by (simp add: run_defs defaultLoader_eq)

section \<open>Registered converters\<close>

text \<open>
  A successful \<^verbatim>\<open>Register\<close> stores the wrapped function under the function's first
  result type, and no call of \<^verbatim>\<open>Register\<close> removes or replaces an entry.
\<close>

lemma Register_stores_wrapped:
  "Register e0 (Fn g) gqlType = (e, Return None) \<Longrightarrow>
     loaderFuncs e (fout g ! 0) = Some (wrapped g) \<and> gqlTypes e (fout g ! 0) = Some gqlType"
  by (auto simp: Register_def split: option.splits if_splits)

lemma Register_keeps_entries:
  "Register e f gqlType = (e', r) \<Longrightarrow> loaderFuncs e t = Some w \<Longrightarrow> loaderFuncs e' t = Some w"
  by (auto simp: Register_def split: callable.splits option.splits if_splits)

section \<open>The loop of LoadArgs\<close>

text \<open>Visiting a list of fields is visiting a first part and, unless that stops, the rest.\<close>

lemma loadFields_append:
  "loadFields e args (pre @ rest) i sv =
     (case loadFields e args pre i sv of
        (sv', Return None) \<Rightarrow> loadFields e args rest (i + length pre) sv'
      | r \<Rightarrow> r)"
proof (induction pre arbitrary: i sv)
  case Nil
  show ?case by simp
next
  case (Cons f pre)
  show ?case
    by (simp add: Cons.IH split: option.split prod.split outcome.split bool.split)
qed

lemma SetField_struct:
  "SetField (Some (StructV t vals)) i f x = Return sv' \<Longrightarrow>
     \<exists>v. x = Some v \<and> i < length vals \<and> PkgPath f = [] \<and> sv' = Some (StructV t (vals[i := v]))"
  by (auto simp: SetField_def split: if_splits option.splits)

text \<open>
  One iteration in front of the rest of the loop: the iteration either leaves the values
  alone or writes position \<open>i\<close> for a field whose argument is in the map.
\<close>

lemma frame_step:
  assumes later: "\<forall>j. (Suc i \<le> j \<and> j < Suc i + length fs \<longrightarrow>
             (case Lookup (Tag (fs ! (j - Suc i))) argTag of None \<Rightarrow> True | Some k \<Rightarrow> args k = None))
           \<longrightarrow> vals' ! j = vals1 ! j"
    and here: "vals1 = vals \<or> (\<exists>v k. vals1 = vals[i := v] \<and> Lookup (Tag f) argTag = Some k \<and> args k \<noteq> None)"
  shows "\<forall>j. (i \<le> j \<and> j < i + length (f # fs) \<longrightarrow>
             (case Lookup (Tag ((f # fs) ! (j - i))) argTag of None \<Rightarrow> True | Some k \<Rightarrow> args k = None))
           \<longrightarrow> vals' ! j = vals ! j"
proof (intro allI impI)
  fix j
  assume c: "i \<le> j \<and> j < i + length (f # fs) \<longrightarrow>
             (case Lookup (Tag ((f # fs) ! (j - i))) argTag of None \<Rightarrow> True | Some k \<Rightarrow> args k = None)"
  show "vals' ! j = vals ! j"
  proof (cases "j = i")
    case True
    with c have "case Lookup (Tag f) argTag of None \<Rightarrow> True | Some k \<Rightarrow> args k = None" by simp
    with here have "vals1 = vals" by (auto split: option.splits)
    moreover from later True have "vals' ! j = vals1 ! j" by simp
    ultimately show ?thesis by simp
  next
    case False
    have "Suc i \<le> j \<and> j < Suc i + length fs \<longrightarrow>
             (case Lookup (Tag (fs ! (j - Suc i))) argTag of None \<Rightarrow> True | Some k \<Rightarrow> args k = None)"
    proof
      assume r: "Suc i \<le> j \<and> j < Suc i + length fs"
      then have "j - i = Suc (j - Suc i)" by arith
      then have "(f # fs) ! (j - i) = fs ! (j - Suc i)" by simp
      with c r show "case Lookup (Tag (fs ! (j - Suc i))) argTag of None \<Rightarrow> True | Some k \<Rightarrow> args k = None"
        by simp
    qed
    with later have "vals' ! j = vals1 ! j" by blast
    moreover from here False have "vals1 ! j = vals ! j" by auto
    ultimately show ?thesis by simp
  qed
qed

text \<open>
  The frame of the loop. However it ends, a struct stays a struct of the same type and
  length, and every position is unchanged that lies outside the fields visited, or whose
  field has no arg tag, or whose field's argument is not in the map.
\<close>

lemma loadFields_struct:
  "loadFields e args fs i (Some (StructV t vals)) = (sv', r) \<Longrightarrow>
     \<exists>vals'. sv' = Some (StructV t vals') \<and> length vals' = length vals \<and>
       (\<forall>j. (i \<le> j \<and> j < i + length fs \<longrightarrow>
              (case Lookup (Tag (fs ! (j - i))) argTag of None \<Rightarrow> True | Some k \<Rightarrow> args k = None))
            \<longrightarrow> vals' ! j = vals ! j)"
proof (induction fs arbitrary: i vals)
  case Nil
  then show ?case by auto
next
  case (Cons f fs)
  let ?goal = "\<lambda>vals'. sv' = Some (StructV t vals') \<and> length vals' = length vals \<and>
       (\<forall>j. (i \<le> j \<and> j < i + length (f # fs) \<longrightarrow>
              (case Lookup (Tag ((f # fs) ! (j - i))) argTag of None \<Rightarrow> True | Some k \<Rightarrow> args k = None))
            \<longrightarrow> vals' ! j = vals ! j)"
  have stop: "sv' = Some (StructV t vals) \<Longrightarrow> \<exists>vals'. ?goal vals'"
    by (rule exI [of _ vals]) simp
  have continue: "\<exists>vals'. ?goal vals'"
    if run: "loadFields e args fs (Suc i) (Some (StructV t vals1)) = (sv', r)"
      and len: "length vals1 = length vals"
      and here: "vals1 = vals \<or> (\<exists>v k. vals1 = vals[i := v] \<and> Lookup (Tag f) argTag = Some k \<and> args k \<noteq> None)"
    for vals1
  proof -
    from Cons.IH [OF run] obtain vals' where
      v: "sv' = Some (StructV t vals')" "length vals' = length vals1"
      and later: "\<forall>j. (Suc i \<le> j \<and> j < Suc i + length fs \<longrightarrow>
             (case Lookup (Tag (fs ! (j - Suc i))) argTag of None \<Rightarrow> True | Some k \<Rightarrow> args k = None))
           \<longrightarrow> vals' ! j = vals1 ! j"
      by blast
    from frame_step [OF later here] v len show ?thesis by auto
  qed
  show ?case
  proof (cases "Lookup (Tag f) argTag")
    case None
    with Cons.prems have "loadFields e args fs (Suc i) (Some (StructV t vals)) = (sv', r)"
      by simp
    then show ?thesis by (rule continue) simp_all
  next
    case (Some k)
    note k = Some
    show ?thesis
    proof (cases "args k")
      case None
      note absent = None
      show ?thesis
      proof (cases "Lookup (Tag f) requiredTag")
        case None
        with k absent Cons.prems
        have "loadFields e args fs (Suc i) (Some (StructV t vals)) = (sv', r)" by simp
        then show ?thesis by (rule continue) simp_all
      next
        case (Some rv)
        note rv = Some
        show ?thesis
        proof (cases "ParseBool rv")
          case None
          with k absent rv Cons.prems have "sv' = Some (StructV t vals)" by auto
          then show ?thesis by (rule stop)
        next
          case (Some b)
          show ?thesis
          proof (cases b)
            case True
            with Some k absent rv Cons.prems have "sv' = Some (StructV t vals)" by auto
            then show ?thesis by (rule stop)
          next
            case False
            with Some k absent rv Cons.prems
            have "loadFields e args fs (Suc i) (Some (StructV t vals)) = (sv', r)" by simp
            then show ?thesis by (rule continue) simp_all
          qed
        qed
      qed
    next
      case (Some raw)
      note raw = Some
      show ?thesis
      proof (cases "loaderFuncs e (Type f)")
        case None
        with k raw Cons.prems have "sv' = Some (StructV t vals)" by auto
        then show ?thesis by (rule stop)
      next
        case (Some lf)
        note lf = Some
        obtain x err where res: "lf raw = (x, err)" by (cases "lf raw")
        show ?thesis
        proof (cases err)
          case (Some a)
          with k raw lf res Cons.prems have "sv' = Some (StructV t vals)" by auto
          then show ?thesis by (rule stop)
        next
          case None
          note noerr = None
          show ?thesis
          proof (cases "SetField (Some (StructV t vals)) i f x")
            case (Panic p)
            with k raw lf res noerr Cons.prems have "sv' = Some (StructV t vals)" by auto
            then show ?thesis by (rule stop)
          next
            case (Return sv1)
            from SetField_struct [OF Return] obtain v where
              sv1: "sv1 = Some (StructV t (vals[i := v]))" by blast
            from k raw lf res noerr Cons.prems Return sv1
            have "loadFields e args fs (Suc i) (Some (StructV t (vals[i := v]))) = (sv', r)"
              by simp
            then show ?thesis
              by (rule continue) (use k raw in auto)
          qed
        qed
      qed
    qed
  qed
qed

text \<open>
  A loop that runs to its end has gone on after its first field, having left the values
  alone or having written position \<open>i\<close> with what the loader returned; so at its end, a
  field whose argument is in the map holds what its loader returned for the argument.
\<close>

lemma loadFields_Cons_continue:
  assumes "loadFields e args (f # fs) i (Some (StructV t vals)) = (sv', Return None)"
  shows "\<exists>vals1. loadFields e args fs (Suc i) (Some (StructV t vals1)) = (sv', Return None) \<and>
           (case Lookup (Tag f) argTag of
              None \<Rightarrow> vals1 = vals
            | Some k \<Rightarrow>
                (case args k of
                   None \<Rightarrow> vals1 = vals
                 | Some raw \<Rightarrow>
                     (\<exists>lf v. loaderFuncs e (Type f) = Some lf \<and> lf raw = (Some v, None) \<and>
                            i < length vals \<and> vals1 = vals[i := v])))"
proof (cases "Lookup (Tag f) argTag")
  case None
  with assms show ?thesis by auto
next
  case (Some k)
  note k = Some
  show ?thesis
  proof (cases "args k")
    case None
    with k assms show ?thesis by (auto split: option.splits if_splits)
  next
    case (Some raw)
    note raw = Some
    show ?thesis
    proof (cases "loaderFuncs e (Type f)")
      case None
      with k raw assms show ?thesis by simp
    next
      case (Some lf)
      note lf = Some
      obtain x err where res: "lf raw = (x, err)" by (cases "lf raw")
      show ?thesis
      proof (cases err)
        case (Some a)
        with k raw lf res assms show ?thesis by simp
      next
        case None
        note noerr = None
        show ?thesis
        proof (cases "SetField (Some (StructV t vals)) i f x")
          case (Panic p)
          with k raw lf res noerr assms show ?thesis by simp
        next
          case (Return sv1)
          from SetField_struct [OF Return] obtain v where
            v: "x = Some v" "i < length vals" "sv1 = Some (StructV t (vals[i := v]))" by blast
          from k raw lf res noerr assms Return v
          have "loadFields e args fs (Suc i) (Some (StructV t (vals[i := v]))) = (sv', Return None)"
            by simp
          with k raw lf res noerr v show ?thesis by auto
        qed
      qed
    qed
  qed
qed

lemma loadFields_written:
  assumes "loadFields e args fs i (Some (StructV t vals)) = (Some (StructV t vals'), Return None)"
    and "n < length fs" and "Lookup (Tag (fs ! n)) argTag = Some k" and "args k = Some raw"
    and "loaderFuncs e (Type (fs ! n)) = Some lf" and "lf raw = (Some v, None)"
  shows "vals' ! (i + n) = v"
  using assms
proof (induction fs arbitrary: i vals n)
  case Nil
  then show ?case by simp
next
  case (Cons f fs)
  from loadFields_Cons_continue [OF Cons.prems(1)] obtain vals1 where
    rest: "loadFields e args fs (Suc i) (Some (StructV t vals1)) = (Some (StructV t vals'), Return None)"
    and step: "case Lookup (Tag f) argTag of
              None \<Rightarrow> vals1 = vals
            | Some k \<Rightarrow>
                (case args k of
                   None \<Rightarrow> vals1 = vals
                 | Some raw \<Rightarrow>
                     (\<exists>lf v. loaderFuncs e (Type f) = Some lf \<and> lf raw = (Some v, None) \<and>
                            i < length vals \<and> vals1 = vals[i := v]))"
    by blast
  show ?case
  proof (cases n)
    case 0
    with Cons.prems step have w: "i < length vals" "vals1 = vals[i := v]" by auto
    from loadFields_struct [OF rest] have "vals' ! i = vals1 ! i" by auto
    with w 0 show ?thesis by simp
  next
    case (Suc m)
    with Cons.prems have "vals' ! (Suc i + m) = v"
      by (intro Cons.IH [OF rest]) auto
    with Suc show ?thesis by simp
  qed
qed

lemma LoadArgs_pointer_to_struct:
  "Kind T = Struct \<Longrightarrow>
   LoadArgs e args (Pointer (StructV T vals)) =
     (case loadFields e args (FieldsOf T) 0 (Some (StructV T vals)) of
        (sv', r) \<Rightarrow> (pointee_update (Pointer (StructV T vals)) sv', r))"
  by (simp add: LoadArgs_def)

text \<open>Visiting the fields \<open>pre\<close> writes no position from \<open>length pre\<close> on.\<close>

lemma loadFields_prefix_untouched:
  assumes "loadFields e args pre 0 (Some (StructV t vals)) = (sv', r)"
  shows "\<exists>vals'. sv' = Some (StructV t vals') \<and> length vals' = length vals \<and>
           (\<forall>j\<ge>length pre. vals' ! j = vals ! j) \<and>
           ((\<forall>g\<in>set pre. \<forall>k'. Lookup (Tag g) argTag = Some k' \<longrightarrow> args k' = None) \<longrightarrow> vals' = vals)"
proof -
  from loadFields_struct [OF assms] obtain vals' where
    v: "sv' = Some (StructV t vals')" "length vals' = length vals"
    and fr: "\<forall>j. (0 \<le> j \<and> j < 0 + length pre \<longrightarrow>
              (case Lookup (Tag (pre ! (j - 0))) argTag of None \<Rightarrow> True | Some k \<Rightarrow> args k = None))
            \<longrightarrow> vals' ! j = vals ! j"
    by blast
  have a: "\<forall>j\<ge>length pre. vals' ! j = vals ! j"
    using fr by auto
  have b: "vals' = vals" if all: "\<forall>g\<in>set pre. \<forall>k'. Lookup (Tag g) argTag = Some k' \<longrightarrow> args k' = None"
  proof (rule nth_equalityI)
    show "length vals' = length vals" by (rule v(2))
  next
    fix j assume "j < length vals'"
    have "j < length pre \<longrightarrow> (case Lookup (Tag (pre ! j)) argTag of None \<Rightarrow> True | Some k \<Rightarrow> args k = None)"
      using all by (auto split: option.splits)
    with fr show "vals' ! j = vals ! j" by simp
  qed
  from v a b show ?thesis by blast
qed

text \<open>A field at which the loop returns an error, whatever the struct holds by then.\<close>

lemma loadFields_failing_field:
  assumes stop: "\<And>i sv. loadFields e args (f # post) i sv = (sv, Return (Some err))"
  shows "loadFields e args (pre @ f # post) 0 sv0 =
           (case loadFields e args pre 0 sv0 of
              (sv', Return None) \<Rightarrow> (sv', Return (Some err))
            | r \<Rightarrow> r)"
  by (simp add: loadFields_append stop del: loadFields.simps
        split: prod.split outcome.split option.split)

lemma LoadArgs_failing_field:
  assumes T: "Kind T = Struct" and fs: "FieldsOf T = pre @ f # post"
    and stop: "\<And>i sv. loadFields e args (f # post) i sv = (sv, Return (Some err))"
  shows "\<exists>vals' r. LoadArgs e args (Pointer (StructV T vals)) = (Pointer (StructV T vals'), r)
           \<and> fst (loadFields e args pre 0 (Some (StructV T vals))) = Some (StructV T vals')
           \<and> r \<noteq> Return None \<and> length vals' = length vals
           \<and> (\<forall>j\<ge>length pre. vals' ! j = vals ! j)
           \<and> (\<forall>sv1. loadFields e args pre 0 (Some (StructV T vals)) = (sv1, Return None)
                  \<longrightarrow> r = Return (Some err))
           \<and> ((\<forall>g\<in>set pre. \<forall>k'. Lookup (Tag g) argTag = Some k' \<longrightarrow> args k' = None)
                  \<longrightarrow> vals' = vals)"
proof -
  obtain sv' r0 where pre: "loadFields e args pre 0 (Some (StructV T vals)) = (sv', r0)"
    by (cases "loadFields e args pre 0 (Some (StructV T vals))")
  from loadFields_prefix_untouched [OF pre] obtain vals' where
    v: "sv' = Some (StructV T vals')" "length vals' = length vals"
       "\<forall>j\<ge>length pre. vals' ! j = vals ! j"
       "(\<forall>g\<in>set pre. \<forall>k'. Lookup (Tag g) argTag = Some k' \<longrightarrow> args k' = None) \<longrightarrow> vals' = vals"
    by blast
  let ?r = "case r0 of Return None \<Rightarrow> Return (Some err) | _ \<Rightarrow> r0"
  have all: "loadFields e args (pre @ f # post) 0 (Some (StructV T vals)) = (sv', ?r)"
    by (simp add: loadFields_failing_field [OF stop] pre split: outcome.split option.split)
  have "LoadArgs e args (Pointer (StructV T vals)) = (Pointer (StructV T vals'), ?r)"
    by (simp add: LoadArgs_pointer_to_struct [OF T] fs all v(1))
  moreover have "fst (loadFields e args pre 0 (Some (StructV T vals))) = Some (StructV T vals')"
    by (simp add: pre v(1))
  moreover have "?r \<noteq> Return None" by (simp split: outcome.split option.split)
  moreover have "\<forall>sv1. loadFields e args pre 0 (Some (StructV T vals)) = (sv1, Return None) \<longrightarrow> ?r = Return (Some err)"
    using pre by auto
  ultimately show ?thesis using v by blast
qed

lemma required_field_stops:
  assumes "Lookup (Tag f) argTag = Some k" and "args k = None"
    and "Lookup (Tag f) requiredTag = Some rv" and "ParseBool rv = Some True"
  shows "loadFields e args (f # post) i sv = (sv, Return (Some (Required k)))"
  using assms by simp

lemma invalid_tag_stops:
  assumes "Lookup (Tag f) argTag = Some k" and "args k = None"
    and "Lookup (Tag f) requiredTag = Some rv" and "ParseBool rv = None"
  shows "loadFields e args (f # post) i sv = (sv, Return (Some (InvalidRequiredTag rv)))"
  using assms by simp


lemma loadFields_without_arg:
  assumes "Lookup (Tag f) argTag = None" and "Lookup (Tag f') argTag = None"
  shows "loadFields e args (pre @ f' # post) i sv = loadFields e args (pre @ f # post) i sv"
proof -
  have "loadFields e args (f' # post) n s = loadFields e args (f # post) n s" for n s
    using assms by simp
  then show ?thesis
    by (simp add: loadFields_append del: loadFields.simps
          split: prod.split outcome.split option.split)
qed

text \<open>
  When every field is satisfiable (no arg tag; or its argument is absent and it is not
  required; or its argument is present, the field is exported and a registered loader
  converts the argument), the loop runs to its end.
\<close>

lemma loadFields_all_satisfiable:
  assumes "\<forall>f\<in>set fs.
             (case Lookup (Tag f) argTag of
                None \<Rightarrow> True
              | Some k \<Rightarrow>
                  (case args k of
                     None \<Rightarrow> (case Lookup (Tag f) requiredTag of None \<Rightarrow> True | Some rv \<Rightarrow> ParseBool rv = Some False)
                   | Some raw \<Rightarrow> PkgPath f = [] \<and> (\<exists>lf v. loaderFuncs e (Type f) = Some lf \<and> lf raw = (Some v, None))))"
    and "i + length fs \<le> length vals"
  shows "snd (loadFields e args fs i (Some (StructV t vals))) = Return None"
  using assms
proof (induction fs arbitrary: i vals)
  case Nil
  show ?case by simp
next
  case (Cons f fs)
  have rest: "snd (loadFields e args fs (Suc i) (Some (StructV t vals1))) = Return None"
    if "length vals1 = length vals" for vals1
    using Cons.prems that by (intro Cons.IH) auto
  have here: "case Lookup (Tag f) argTag of
                None \<Rightarrow> True
              | Some k \<Rightarrow>
                  (case args k of
                     None \<Rightarrow> (case Lookup (Tag f) requiredTag of None \<Rightarrow> True | Some rv \<Rightarrow> ParseBool rv = Some False)
                   | Some raw \<Rightarrow> PkgPath f = [] \<and> (\<exists>lf v. loaderFuncs e (Type f) = Some lf \<and> lf raw = (Some v, None)))"
    using Cons.prems(1) by simp
  have i: "i < length vals" using Cons.prems(2) by simp
  show ?case
  proof (cases "Lookup (Tag f) argTag")
    case None
    then show ?thesis by (simp add: rest)
  next
    case (Some k)
    note k = Some
    show ?thesis
    proof (cases "args k")
      case None
      with k here show ?thesis by (auto simp: rest split: option.splits)
    next
      case (Some raw)
      with k here obtain lf v where
        "PkgPath f = []" "loaderFuncs e (Type f) = Some lf" "lf raw = (Some v, None)"
        by auto
      with k Some i show ?thesis
        by (simp add: SetField_def rest)
    qed
  qed
qed

section \<open>The loop of SafeArgsConfig\<close>

lemma argsOfFields_append:
  "argsOfFields e (xs @ ys) out = argsOfFields e ys (argsOfFields e xs out)"
  by (induction xs arbitrary: out) (simp_all split: option.split)

lemma argsOfFields_other:
  "\<forall>g\<in>set fs. Lookup (Tag g) argTag \<noteq> Some n \<Longrightarrow> argsOfFields e fs out n = out n"
  by (induction fs arbitrary: out) (auto split: option.split)

text \<open>The entry under a name is the one of the last field that declares the name.\<close>

lemma argsOfFields_last:
  assumes "Lookup (Tag f) argTag = Some n" and "\<forall>g\<in>set post. Lookup (Tag g) argTag \<noteq> Some n"
  shows "argsOfFields e (pre @ f # post) out n =
           Some \<lparr>ArgType = (case gqlTypes e (Type f) of None \<Rightarrow> None | Some g \<Rightarrow> g),
                 Description = Get (Tag f) descTag\<rparr>"
  using assms by (simp add: argsOfFields_append argsOfFields_other)

lemma argsOfFields_keys:
  "argsOfFields e fs out n \<noteq> out n \<Longrightarrow> \<exists>f\<in>set fs. Lookup (Tag f) argTag = Some n"
  using argsOfFields_other [of fs n e out] by blast

lemma argsOfFields_without:
  assumes "j < length fs" and "Lookup (Tag (fs ! j)) argTag = None"
  shows "argsOfFields e (take j fs @ drop (Suc j) fs) out = argsOfFields e fs out"
proof -
  have "fs = take j fs @ fs ! j # drop (Suc j) fs"
    using assms(1) by (rule id_take_nth_drop)
  then have "argsOfFields e fs out = argsOfFields e (take j fs @ fs ! j # drop (Suc j) fs) out"
    by simp
  also have "\<dots> = argsOfFields e (take j fs @ drop (Suc j) fs) out"
    using assms(2) by (simp add: argsOfFields_append)
  finally show ?thesis by simp
qed

lemma SafeArgsConfig_struct:
  assumes "TypeOf i = Some t" and "(if Kind t = Ptr then Elem t else Some t) = Some T"
    and "Kind T = Struct"
  shows "SafeArgsConfig e i = Return (Some (argsOfFields e (FieldsOf T) Map.empty), None)"
  using assms by (auto simp: SafeArgsConfig_def split: if_splits)

section \<open>Claims\<close>

subsection \<open>C1: a required argument is missing\<close>

text \<open>
  Claim C1, as amended. Let a field carry the arg annotation and a required annotation
  that parses to true, and let the map have no entry under its argument name; \<open>pre\<close>
  are the fields declared before it. Then \<^verbatim>\<open>LoadArgs\<close> does not succeed, and the struct
  it leaves is exactly the struct as visiting the fields \<open>pre\<close> has left it: nothing is
  rolled back, so what an earlier field was given stays written, and no field at or after
  that field is written. When visiting the earlier fields ends without an error, the call
  returns the "is required" error naming the argument; and when no earlier field has its
  argument in the map, the struct is left as it was.
\<close>

theorem required_argument_missing:
  assumes "Kind T = Struct" and "FieldsOf T = pre @ f # post"
    and "Lookup (Tag f) argTag = Some k" and "args k = None"
    and "Lookup (Tag f) requiredTag = Some rv" and "ParseBool rv = Some True"
  shows "\<exists>vals' r. LoadArgs e args (Pointer (StructV T vals)) = (Pointer (StructV T vals'), r)
           \<and> fst (loadFields e args pre 0 (Some (StructV T vals))) = Some (StructV T vals')
           \<and> r \<noteq> Return None \<and> length vals' = length vals
           \<and> (\<forall>j\<ge>length pre. vals' ! j = vals ! j)
           \<and> (\<forall>sv1. loadFields e args pre 0 (Some (StructV T vals)) = (sv1, Return None)
                  \<longrightarrow> r = Return (Some (Required k)))
           \<and> ((\<forall>g\<in>set pre. \<forall>k'. Lookup (Tag g) argTag = Some k' \<longrightarrow> args k' = None)
                  \<longrightarrow> vals' = vals)
           \<and> (\<forall>j k' raw lf v.
                  j < length pre \<and> Lookup (Tag (pre ! j)) argTag = Some k' \<and> args k' = Some raw \<and>
                  loaderFuncs e (Type (pre ! j)) = Some lf \<and> lf raw = (Some v, None) \<and>
                  snd (loadFields e args pre 0 (Some (StructV T vals))) = Return None
                  \<longrightarrow> vals' ! j = v)"
proof -
  have "\<exists>vals' r. LoadArgs e args (Pointer (StructV T vals)) = (Pointer (StructV T vals'), r)
           \<and> fst (loadFields e args pre 0 (Some (StructV T vals))) = Some (StructV T vals')
           \<and> r \<noteq> Return None \<and> length vals' = length vals
           \<and> (\<forall>j\<ge>length pre. vals' ! j = vals ! j)
           \<and> (\<forall>sv1. loadFields e args pre 0 (Some (StructV T vals)) = (sv1, Return None)
                  \<longrightarrow> r = Return (Some (Required k)))
           \<and> ((\<forall>g\<in>set pre. \<forall>k'. Lookup (Tag g) argTag = Some k' \<longrightarrow> args k' = None)
                  \<longrightarrow> vals' = vals)"
    by (rule LoadArgs_failing_field [OF assms(1,2)]) (use assms(3-6) in \<open>rule required_field_stops\<close>)
  then obtain vals' r where
    main: "LoadArgs e args (Pointer (StructV T vals)) = (Pointer (StructV T vals'), r)"
      "fst (loadFields e args pre 0 (Some (StructV T vals))) = Some (StructV T vals')"
      "r \<noteq> Return None" "length vals' = length vals"
      "\<forall>j\<ge>length pre. vals' ! j = vals ! j"
      "\<forall>sv1. loadFields e args pre 0 (Some (StructV T vals)) = (sv1, Return None)
                  \<longrightarrow> r = Return (Some (Required k))"
      "(\<forall>g\<in>set pre. \<forall>k'. Lookup (Tag g) argTag = Some k' \<longrightarrow> args k' = None) \<longrightarrow> vals' = vals"
    by blast
  have written: "vals' ! j = v"
    if "j < length pre \<and> Lookup (Tag (pre ! j)) argTag = Some k' \<and> args k' = Some raw \<and>
        loaderFuncs e (Type (pre ! j)) = Some lf \<and> lf raw = (Some v, None) \<and>
        snd (loadFields e args pre 0 (Some (StructV T vals))) = Return None"
    for j k' raw lf v
  proof -
    from that main(2)
    have run: "loadFields e args pre 0 (Some (StructV T vals)) = (Some (StructV T vals'), Return None)"
      by (simp add: prod_eq_iff)
    from that have c: "j < length pre" "Lookup (Tag (pre ! j)) argTag = Some k'" "args k' = Some raw"
      "loaderFuncs e (Type (pre ! j)) = Some lf" "lf raw = (Some v, None)"
      by simp_all
    have "vals' ! (0 + j) = v"
      by (rule loadFields_written [OF run c(1) c(2) c(3) c(4) c(5)])
    then show ?thesis by simp
  qed
  from main written show ?thesis by blast
qed

text \<open>
  A struct whose optional field \<^verbatim>\<open>A\<close> is declared before the required field \<^verbatim>\<open>B\<close>, and
  a map with \<^verbatim>\<open>a\<close> alone: the error is "b is required", \<^verbatim>\<open>A\<close> holds what it was given
  and \<^verbatim>\<open>B\<close> is untouched.
\<close>

theorem required_argument_missing_witness:
  "\<exists>vals'. LoadArgs defaultLoader [''a'' \<mapsto> StringV ''x'']
       (Pointer (StructV
          (StructOf NoErrorMethod
             [StructField ''A'' [] (Basic String) [(''arg'', ''a'')],
              StructField ''B'' [] (Basic String) [(''arg'', ''b''), (''required'', ''true'')]])
          [StringV [], StringV []]))
     = (Pointer (StructV
          (StructOf NoErrorMethod
             [StructField ''A'' [] (Basic String) [(''arg'', ''a'')],
              StructField ''B'' [] (Basic String) [(''arg'', ''b''), (''required'', ''true'')]])
          vals'),
        Return (Some (Required ''b'')))
     \<and> vals' ! 0 = StringV ''x'' \<and> vals' ! 1 = StringV []"
proof -
  let ?A = "StructField ''A'' [] (Basic String) [(''arg'', ''a'')]"
  let ?B = "StructField ''B'' [] (Basic String) [(''arg'', ''b''), (''required'', ''true'')]"
  let ?T = "StructOf NoErrorMethod [?A, ?B]"
  let ?args = "[''a'' \<mapsto> StringV ''x'']"
  let ?vals = "[StringV [], StringV []]"
  have h1: "Kind ?T = Struct" by simp
  have h2: "FieldsOf ?T = [?A] @ ?B # []" by simp
  have h3: "Lookup (Tag ?B) argTag = Some ''b''" by (simp add: Lookup_def argTag_def)
  have h4: "?args ''b'' = None" by simp
  have h5: "Lookup (Tag ?B) requiredTag = Some ''true''" by (simp add: Lookup_def requiredTag_def)
  have h6: "ParseBool ''true'' = Some True" by (simp add: ParseBool_def)
  have ok: "snd (loadFields defaultLoader ?args [?A] 0 (Some (StructV ?T ?vals))) = Return None"
    by (simp add: run_defs defaultLoader_String)
  have conv: "wrapped LoadString_func (StringV ''x'') = (Some (StringV ''x''), None)"
    by (simp add: run_defs)
  from required_argument_missing
         [where T = ?T and pre = "[?A]" and f = ?B and post = "[]" and k = "''b''"
            and args = ?args and rv = "''true''" and e = defaultLoader and vals = ?vals,
          OF h1 h2 h3 h4 h5 h6]
  obtain vals' r where
    l: "LoadArgs defaultLoader ?args (Pointer (StructV ?T ?vals)) = (Pointer (StructV ?T vals'), r)"
    and tail: "\<forall>j\<ge>length [?A]. vals' ! j = ?vals ! j"
    and req: "\<forall>sv1. loadFields defaultLoader ?args [?A] 0 (Some (StructV ?T ?vals)) = (sv1, Return None)
                  \<longrightarrow> r = Return (Some (Required ''b''))"
    and wr: "\<forall>j k' raw lf v.
                  j < length [?A] \<and> Lookup (Tag ([?A] ! j)) argTag = Some k' \<and> ?args k' = Some raw \<and>
                  loaderFuncs defaultLoader (Type ([?A] ! j)) = Some lf \<and> lf raw = (Some v, None) \<and>
                  snd (loadFields defaultLoader ?args [?A] 0 (Some (StructV ?T ?vals))) = Return None
                  \<longrightarrow> vals' ! j = v"
    by blast
  from ok have "loadFields defaultLoader ?args [?A] 0 (Some (StructV ?T ?vals))
                  = (fst (loadFields defaultLoader ?args [?A] 0 (Some (StructV ?T ?vals))), Return None)"
    by (simp add: prod_eq_iff)
  with req have r: "r = Return (Some (Required ''b''))" by blast
  have "0 < length [?A] \<and> Lookup (Tag ([?A] ! 0)) argTag = Some ''a'' \<and>
        ?args ''a'' = Some (StringV ''x'') \<and>
        loaderFuncs defaultLoader (Type ([?A] ! 0)) = Some (wrapped LoadString_func) \<and>
        wrapped LoadString_func (StringV ''x'') = (Some (StringV ''x''), None) \<and>
        snd (loadFields defaultLoader ?args [?A] 0 (Some (StructV ?T ?vals))) = Return None"
    using ok conv by (simp add: Lookup_def argTag_def defaultLoader_String)
  with wr have w0: "vals' ! 0 = StringV ''x''" by blast
  from tail have w1: "vals' ! 1 = StringV []" by simp
  from l r w0 w1 show ?thesis by blast
qed

text \<open>
  C1 as stated fails. Field \<^verbatim>\<open>B\<close> is required and its argument is missing, yet the call
  has written field \<^verbatim>\<open>A\<close>, declared before it, by the time it returns "b is required".
\<close>

theorem required_argument_missing_counterexample:
  "LoadArgs defaultLoader [''a'' \<mapsto> StringV ''x'']
     (Pointer (StructV
        (StructOf NoErrorMethod [StructField ''A'' [] (Basic String) [(''arg'', ''a'')],
                   StructField ''B'' [] (Basic String) [(''arg'', ''b''), (''required'', ''true'')]])
        [StringV [], StringV []]))
   = (Pointer (StructV
        (StructOf NoErrorMethod [StructField ''A'' [] (Basic String) [(''arg'', ''a'')],
                   StructField ''B'' [] (Basic String) [(''arg'', ''b''), (''required'', ''true'')]])
        [StringV ''x'', StringV []]),
      Return (Some (Required ''b'')))"
  by (simp add: run_defs defaultLoader_String)

subsection \<open>C2: a second converter for a registered type\<close>

text \<open>
  Claim C2. In any registry that holds a converter \<open>first\<close> for the first result type of
  a function with the signature of a converter (one parameter, two results, the second
  implementing \<^verbatim>\<open>error\<close>), \<^verbatim>\<open>Register\<close> of that function returns the error "a loader func
  has already been registered", and the registry after the call is the registry before it:
  the converter for the type is still \<open>first\<close>.
\<close>

theorem Register_duplicate_rejected:
  assumes "length (fin g) = 1" and "length (fout g) = 2" and "Implements_error (fout g ! 1)"
    and "loaderFuncs e (fout g ! 0) = Some first"
  shows "\<exists>e'. Register e (Fn g) gqlType = (e', Return (Some (AlreadyRegistered (fout g ! 0) (fname g))))
           \<and> loaderFuncs e' (fout g ! 0) = Some first \<and> e' = e"
  using assms by (simp add: Register_def)

text \<open>Registering \<^verbatim>\<open>LoadBool\<close> a second time on the default loader.\<close>

theorem Register_duplicate_rejected_witness:
  "loaderFuncs defaultLoader (Basic Bool) = Some (wrapped LoadBool_func) \<and>
   Register defaultLoader (Fn LoadBool_func) (Some graphql_Boolean)
     = (defaultLoader,
        Return (Some (AlreadyRegistered (Basic Bool) ''github.com/btubbs/graphql-go-helpers.LoadBool'')))"
  using Register_duplicate_rejected
    [of LoadBool_func defaultLoader "wrapped LoadBool_func" "Some graphql_Boolean"]
  by (simp add: LoadBool_func_def errorType_def defaultLoader_Bool)

subsection \<open>C3: a converter that panics\<close>




subsection \<open>C4: a required annotation that is no boolean\<close>

text \<open>
  Claim C4, as amended. Let a field carry the arg annotation and a required annotation
  that does not parse as a boolean, and let the map have no entry under its argument name.
  Then \<^verbatim>\<open>LoadArgs\<close> does not succeed, and when visiting the earlier fields ends without an
  error it returns the error "is not a valid 'required' tag value" with the annotation.
\<close>

theorem invalid_required_tag:
  assumes "Kind T = Struct" and "FieldsOf T = pre @ f # post"
    and "Lookup (Tag f) argTag = Some k" and "args k = None"
    and "Lookup (Tag f) requiredTag = Some rv" and "ParseBool rv = None"
  shows "\<exists>vals' r. LoadArgs e args (Pointer (StructV T vals)) = (Pointer (StructV T vals'), r)
           \<and> r \<noteq> Return None
           \<and> (\<forall>sv1. loadFields e args pre 0 (Some (StructV T vals)) = (sv1, Return None)
                  \<longrightarrow> r = Return (Some (InvalidRequiredTag rv)))"
proof -
  have "\<exists>vals' r. LoadArgs e args (Pointer (StructV T vals)) = (Pointer (StructV T vals'), r)
           \<and> fst (loadFields e args pre 0 (Some (StructV T vals))) = Some (StructV T vals')
           \<and> r \<noteq> Return None \<and> length vals' = length vals
           \<and> (\<forall>j\<ge>length pre. vals' ! j = vals ! j)
           \<and> (\<forall>sv1. loadFields e args pre 0 (Some (StructV T vals)) = (sv1, Return None)
                  \<longrightarrow> r = Return (Some (InvalidRequiredTag rv)))
           \<and> ((\<forall>g\<in>set pre. \<forall>k'. Lookup (Tag g) argTag = Some k' \<longrightarrow> args k' = None)
                  \<longrightarrow> vals' = vals)"
    by (rule LoadArgs_failing_field [OF assms(1,2)]) (use assms(3-6) in \<open>rule invalid_tag_stops\<close>)
  then show ?thesis by blast
qed

text \<open>A struct whose only field is tagged \<^verbatim>\<open>required:"maybe"\<close>, and an empty map.\<close>

theorem invalid_required_tag_witness:
  "snd (LoadArgs defaultLoader Map.empty
     (Pointer (StructV
        (StructOf NoErrorMethod [StructField ''A'' [] (Basic String) [(''arg'', ''a''), (''required'', ''maybe'')]])
        [StringV []])))
   = Return (Some (InvalidRequiredTag ''maybe''))"
proof -
  let ?f = "StructField ''A'' [] (Basic String) [(''arg'', ''a''), (''required'', ''maybe'')]"
  have "\<exists>vals' r. LoadArgs defaultLoader Map.empty (Pointer (StructV (StructOf NoErrorMethod [?f]) [StringV []]))
             = (Pointer (StructV (StructOf NoErrorMethod [?f]) vals'), r)
           \<and> r \<noteq> Return None
           \<and> (\<forall>sv1. loadFields defaultLoader Map.empty [] 0 (Some (StructV (StructOf NoErrorMethod [?f]) [StringV []]))
                   = (sv1, Return None)
                  \<longrightarrow> r = Return (Some (InvalidRequiredTag ''maybe'')))"
    by (rule invalid_required_tag [where f = ?f and post = "[]" and k = "''a''"])
       (simp_all add: run_defs)
  then show ?thesis by auto
qed

text \<open>
  C4 as stated fails. The same struct with the argument in the map: the annotation
  \<^verbatim>\<open>"maybe"\<close> is never parsed, the field is written and the call succeeds.
\<close>

theorem invalid_required_tag_counterexample:
  "ParseBool ''maybe'' = None \<and>
   LoadArgs defaultLoader [''a'' \<mapsto> StringV ''x'']
     (Pointer (StructV
        (StructOf NoErrorMethod [StructField ''A'' [] (Basic String) [(''arg'', ''a''), (''required'', ''maybe'')]])
        [StringV []]))
   = (Pointer (StructV
        (StructOf NoErrorMethod [StructField ''A'' [] (Basic String) [(''arg'', ''a''), (''required'', ''maybe'')]])
        [StringV ''x'']),
      Return None)"
  by (simp add: run_defs defaultLoader_String)

subsection \<open>C5: a field without the arg annotation\<close>

text \<open>
  Claim C5. Let field \<open>j\<close> of a struct type carry no arg annotation. The schema that
  \<^verbatim>\<open>SafeArgsConfig\<close> and \<^verbatim>\<open>ArgsConfig\<close> derive, from the struct or from a pointer to it,
  has an entry only under the argument name of some other field, and it is the schema of
  the struct type with field \<open>j\<close> deleted. \<^verbatim>\<open>LoadArgs\<close> leaves the value of field \<open>j\<close>
  as it was, whatever it returns, and its loop does the same on the struct type with field
  \<open>j\<close> replaced by any other field without the annotation.
\<close>

theorem unannotated_field_ignored:
  assumes "Kind T = Struct" and "j < length (FieldsOf T)"
    and "Lookup (Tag (FieldsOf T ! j)) argTag = None"
  shows "(\<exists>out. SafeArgsConfig e (StructV T vals) = Return (Some out, None)
            \<and> SafeArgsConfig e (Pointer (StructV T vals)) = Return (Some out, None)
            \<and> ArgsConfig e (StructV T vals) = Return (Some out)
            \<and> (\<forall>n. out n \<noteq> None \<longrightarrow>
                  (\<exists>j'<length (FieldsOf T). j' \<noteq> j \<and> Lookup (Tag (FieldsOf T ! j')) argTag = Some n))
            \<and> SafeArgsConfig e (StructV (StructOf m (take j (FieldsOf T) @ drop (Suc j) (FieldsOf T))) [])
                = Return (Some out, None))
       \<and> (\<exists>vals' r. LoadArgs e args (Pointer (StructV T vals)) = (Pointer (StructV T vals'), r)
            \<and> length vals' = length vals \<and> vals' ! j = vals ! j)
       \<and> (\<forall>f' sv. Lookup (Tag f') argTag = None \<longrightarrow>
            loadFields e args ((FieldsOf T)[j := f']) 0 sv = loadFields e args (FieldsOf T) 0 sv)"
proof (intro conjI)
  let ?fs = "FieldsOf T"
  let ?out = "argsOfFields e ?fs Map.empty"
  have s1: "SafeArgsConfig e (StructV T vals) = Return (Some ?out, None)"
    using assms(1) by (intro SafeArgsConfig_struct [where t = T]) auto
  have s2: "SafeArgsConfig e (Pointer (StructV T vals)) = Return (Some ?out, None)"
    using assms(1) by (intro SafeArgsConfig_struct [where t = "PtrTo T"]) auto
  have s3: "ArgsConfig e (StructV T vals) = Return (Some ?out)"
    by (simp add: ArgsConfig_def s1)
  have s4: "\<exists>j'<length ?fs. j' \<noteq> j \<and> Lookup (Tag (?fs ! j')) argTag = Some n" if "?out n \<noteq> None" for n
  proof -
    from that have "?out n \<noteq> Map.empty n" by simp
    from argsOfFields_keys [OF this] obtain f where f: "f \<in> set ?fs" "Lookup (Tag f) argTag = Some n"
      by blast
    then obtain j' where "j' < length ?fs" "?fs ! j' = f" by (auto simp: in_set_conv_nth)
    with f assms(3) show ?thesis by (intro exI [of _ j']) auto
  qed
  have s5: "SafeArgsConfig e (StructV (StructOf m (take j ?fs @ drop (Suc j) ?fs)) []) = Return (Some ?out, None)"
    by (simp add: SafeArgsConfig_def argsOfFields_without [OF assms(2,3)])
  from s1 s2 s3 s4 s5
  show "\<exists>out. SafeArgsConfig e (StructV T vals) = Return (Some out, None)
            \<and> SafeArgsConfig e (Pointer (StructV T vals)) = Return (Some out, None)
            \<and> ArgsConfig e (StructV T vals) = Return (Some out)
            \<and> (\<forall>n. out n \<noteq> None \<longrightarrow>
                  (\<exists>j'<length (FieldsOf T). j' \<noteq> j \<and> Lookup (Tag (FieldsOf T ! j')) argTag = Some n))
            \<and> SafeArgsConfig e (StructV (StructOf m (take j (FieldsOf T) @ drop (Suc j) (FieldsOf T))) [])
                = Return (Some out, None)"
    by blast
next
  obtain sv' r where run: "loadFields e args (FieldsOf T) 0 (Some (StructV T vals)) = (sv', r)"
    by (cases "loadFields e args (FieldsOf T) 0 (Some (StructV T vals))")
  from loadFields_struct [OF run] obtain vals' where
    v: "sv' = Some (StructV T vals')" "length vals' = length vals"
    and fr: "\<forall>ja. (0 \<le> ja \<and> ja < 0 + length (FieldsOf T) \<longrightarrow>
              (case Lookup (Tag (FieldsOf T ! (ja - 0))) argTag of None \<Rightarrow> True | Some k \<Rightarrow> args k = None))
            \<longrightarrow> vals' ! ja = vals ! ja"
    by blast
  from fr assms(2,3) have "vals' ! j = vals ! j" by simp
  with v run show "\<exists>vals' r. LoadArgs e args (Pointer (StructV T vals)) = (Pointer (StructV T vals'), r)
            \<and> length vals' = length vals \<and> vals' ! j = vals ! j"
    by (simp add: LoadArgs_pointer_to_struct [OF assms(1)])
next
  show "\<forall>f' sv. Lookup (Tag f') argTag = None \<longrightarrow>
            loadFields e args ((FieldsOf T)[j := f']) 0 sv = loadFields e args (FieldsOf T) 0 sv"
  proof (intro allI impI)
    fix f' :: "rtype struct_field" and sv
    assume f': "Lookup (Tag f') argTag = None"
    let ?fs = "FieldsOf T"
    have a: "?fs[j := f'] = take j ?fs @ f' # drop (Suc j) ?fs"
      using assms(2) by (rule upd_conv_take_nth_drop)
    have b: "?fs = take j ?fs @ ?fs ! j # drop (Suc j) ?fs"
      using assms(2) by (rule id_take_nth_drop)
    have "loadFields e args (take j ?fs @ f' # drop (Suc j) ?fs) 0 sv
        = loadFields e args (take j ?fs @ ?fs ! j # drop (Suc j) ?fs) 0 sv"
      using assms(3) f' by (rule loadFields_without_arg)
    with a b show "loadFields e args (?fs[j := f']) 0 sv = loadFields e args ?fs 0 sv"
      by simp
  qed
qed

text \<open>
  A struct with an unexported field \<^verbatim>\<open>id\<close> that has only a \<^verbatim>\<open>json\<close> tag: its value
  7 is there after the call.
\<close>

theorem unannotated_field_ignored_witness:
  "\<exists>vals' r. LoadArgs defaultLoader [''name'' \<mapsto> StringV ''Joe'']
       (Pointer (StructV
          (StructOf NoErrorMethod [StructField ''id'' ''main'' (Basic Int') [(''json'', ''id'')],
                     StructField ''Name'' [] (Basic String) [(''arg'', ''name'')]])
          [IntV 7, StringV []]))
     = (Pointer (StructV
          (StructOf NoErrorMethod [StructField ''id'' ''main'' (Basic Int') [(''json'', ''id'')],
                     StructField ''Name'' [] (Basic String) [(''arg'', ''name'')]])
          vals'), r)
     \<and> vals' ! 0 = IntV 7"
proof -
  let ?T = "StructOf NoErrorMethod [StructField ''id'' ''main'' (Basic Int') [(''json'', ''id'')],
                     StructField ''Name'' [] (Basic String) [(''arg'', ''name'')]]"
  have h1: "Kind ?T = Struct" by simp
  have h2: "0 < length (FieldsOf ?T)" by simp
  have h3: "Lookup (Tag (FieldsOf ?T ! 0)) argTag = None" by (simp add: Lookup_def argTag_def)
  from unannotated_field_ignored [OF h1 h2 h3]
  have "\<exists>vals' r. LoadArgs defaultLoader [''name'' \<mapsto> StringV ''Joe''] (Pointer (StructV ?T [IntV 7, StringV []]))
            = (Pointer (StructV ?T vals'), r)
            \<and> length vals' = length [IntV 7, StringV []] \<and> vals' ! 0 = [IntV 7, StringV []] ! 0"
    by blast
  then show ?thesis by auto
qed

subsection \<open>C6: an optional argument is absent\<close>

text \<open>
  Claim C6, as amended. Let field \<open>j\<close> carry the arg annotation, let the map have no
  entry under its argument name, and let its required annotation be absent or parse to
  false. Then \<^verbatim>\<open>LoadArgs\<close> leaves the value of field \<open>j\<close> as it was, whatever it
  returns; and it returns no error provided every field of the struct is satisfiable: the
  field has no arg annotation; or its argument is absent and its required annotation is
  absent or parses to false; or its argument is present, the field is exported, and a
  registered converter for the field's type converts the raw value without an error.
\<close>

theorem optional_argument_absent:
  assumes "Kind T = Struct" and "j < length (FieldsOf T)"
    and "Lookup (Tag (FieldsOf T ! j)) argTag = Some k" and "args k = None"
    and "case Lookup (Tag (FieldsOf T ! j)) requiredTag of None \<Rightarrow> True | Some rv \<Rightarrow> ParseBool rv = Some False"
  shows "\<exists>vals' r. LoadArgs e args (Pointer (StructV T vals)) = (Pointer (StructV T vals'), r)
           \<and> length vals' = length vals \<and> vals' ! j = vals ! j
           \<and> (length vals = length (FieldsOf T) \<and>
              (\<forall>f\<in>set (FieldsOf T).
                 (case Lookup (Tag f) argTag of
                    None \<Rightarrow> True
                  | Some k \<Rightarrow>
                      (case args k of
                         None \<Rightarrow> (case Lookup (Tag f) requiredTag of None \<Rightarrow> True | Some rv \<Rightarrow> ParseBool rv = Some False)
                       | Some raw \<Rightarrow> PkgPath f = [] \<and> (\<exists>lf v. loaderFuncs e (Type f) = Some lf \<and> lf raw = (Some v, None)))))
              \<longrightarrow> r = Return None)"
proof -
  obtain sv' r where run: "loadFields e args (FieldsOf T) 0 (Some (StructV T vals)) = (sv', r)"
    by (cases "loadFields e args (FieldsOf T) 0 (Some (StructV T vals))")
  from loadFields_struct [OF run] obtain vals' where
    v: "sv' = Some (StructV T vals')" "length vals' = length vals"
    and fr: "\<forall>ja. (0 \<le> ja \<and> ja < 0 + length (FieldsOf T) \<longrightarrow>
              (case Lookup (Tag (FieldsOf T ! (ja - 0))) argTag of None \<Rightarrow> True | Some k \<Rightarrow> args k = None))
            \<longrightarrow> vals' ! ja = vals ! ja"
    by blast
  from fr assms(2-4) have same: "vals' ! j = vals ! j" by simp
  have ok: "r = Return None"
    if "length vals = length (FieldsOf T)"
      and "\<forall>f\<in>set (FieldsOf T).
                 (case Lookup (Tag f) argTag of
                    None \<Rightarrow> True
                  | Some k \<Rightarrow>
                      (case args k of
                         None \<Rightarrow> (case Lookup (Tag f) requiredTag of None \<Rightarrow> True | Some rv \<Rightarrow> ParseBool rv = Some False)
                       | Some raw \<Rightarrow> PkgPath f = [] \<and> (\<exists>lf v. loaderFuncs e (Type f) = Some lf \<and> lf raw = (Some v, None))))"
  proof -
    have "snd (loadFields e args (FieldsOf T) 0 (Some (StructV T vals))) = Return None"
      using that by (intro loadFields_all_satisfiable) simp_all
    with run show ?thesis by simp
  qed
  have "LoadArgs e args (Pointer (StructV T vals)) = (Pointer (StructV T vals'), r)"
    using run v by (simp add: LoadArgs_pointer_to_struct [OF assms(1)])
  with v same ok show ?thesis by blast
qed

text \<open>
  The demonstration program's struct with \<^verbatim>\<open>name\<close> alone in the map: the call succeeds
  and \<^verbatim>\<open>Greeting\<close> is still the empty string.
\<close>

theorem optional_argument_absent_witness:
  "\<exists>vals'. LoadArgs defaultLoader [''name'' \<mapsto> StringV ''Joe''] (Pointer helloArgs_zero)
       = (Pointer (StructV helloArgs vals'), Return None)
     \<and> vals' ! 1 = StringV []"
proof -
  let ?args = "[''name'' \<mapsto> StringV ''Joe'']"
  let ?vals = "[StringV [], StringV []]"
  have "\<exists>vals' r. LoadArgs defaultLoader ?args (Pointer (StructV helloArgs ?vals))
             = (Pointer (StructV helloArgs vals'), r)
           \<and> length vals' = length ?vals \<and> vals' ! 1 = ?vals ! 1
           \<and> (length ?vals = length (FieldsOf helloArgs) \<and>
              (\<forall>f\<in>set (FieldsOf helloArgs).
                 (case Lookup (Tag f) argTag of
                    None \<Rightarrow> True
                  | Some k \<Rightarrow>
                      (case ?args k of
                         None \<Rightarrow> (case Lookup (Tag f) requiredTag of None \<Rightarrow> True | Some rv \<Rightarrow> ParseBool rv = Some False)
                       | Some raw \<Rightarrow> PkgPath f = [] \<and> (\<exists>lf v. loaderFuncs defaultLoader (Type f) = Some lf \<and> lf raw = (Some v, None)))))
              \<longrightarrow> r = Return None)"
    by (rule optional_argument_absent [where k = "''greeting''"])
       (simp_all add: run_defs)
  moreover have "length ?vals = length (FieldsOf helloArgs) \<and>
              (\<forall>f\<in>set (FieldsOf helloArgs).
                 (case Lookup (Tag f) argTag of
                    None \<Rightarrow> True
                  | Some k \<Rightarrow>
                      (case ?args k of
                         None \<Rightarrow> (case Lookup (Tag f) requiredTag of None \<Rightarrow> True | Some rv \<Rightarrow> ParseBool rv = Some False)
                       | Some raw \<Rightarrow> PkgPath f = [] \<and> (\<exists>lf v. loaderFuncs defaultLoader (Type f) = Some lf \<and> lf raw = (Some v, None)))))"
    by (simp add: run_defs defaultLoader_String)
  ultimately show ?thesis by (auto simp: helloArgs_zero_def)
qed

text \<open>
  C6 as stated fails. No field of this struct is required and the argument of the optional
  field \<^verbatim>\<open>A\<close> is absent, but the optional field \<^verbatim>\<open>B int\<close> is given a string, and the
  call returns an error.
\<close>

theorem optional_argument_absent_counterexample:
  "LoadArgs defaultLoader [''b'' \<mapsto> StringV ''x'']
     (Pointer (StructV
        (StructOf NoErrorMethod [StructField ''A'' [] (Basic String) [(''arg'', ''a'')],
                   StructField ''B'' [] (Basic Int') [(''arg'', ''b'')]])
        [StringV [], IntV 0]))
   = (Pointer (StructV
        (StructOf NoErrorMethod [StructField ''A'' [] (Basic String) [(''arg'', ''a'')],
                   StructField ''B'' [] (Basic Int') [(''arg'', ''b'')]])
        [StringV [], IntV 0]),
      Return (Some (CannotPopulate ''B'' (Errorf_v (NotAnInt (StringV ''x''))))))"
  by (simp add: run_defs defaultLoader_Int)

subsection \<open>C7: the built-in converters\<close>

text \<open>
  Claim C7. Each built-in converter returns the value that a raw value of exactly its
  type holds, with no error; on every other raw value it returns the zero value of its type
  and the error "is not a ..." with the raw value. The values of dynamic type
  \<^verbatim>\<open>bool\<close>, \<^verbatim>\<open>string\<close>, \<^verbatim>\<open>int\<close> and \<^verbatim>\<open>float64\<close> are exactly \<open>BoolV\<close>, \<open>StringV\<close>,
  \<open>IntV\<close> and \<open>Float64V\<close>, so a raw value of any other dynamic type is rejected. In
  particular \<^verbatim>\<open>LoadInt\<close> rejects a \<^verbatim>\<open>float64\<close>.
\<close>

theorem builtin_converters:
  "LoadBool (BoolV b) = (b, None) \<and> LoadString (StringV s) = (s, None) \<and>
   LoadInt (IntV n) = (n, None) \<and> LoadFloat (Float64V x) = (x, None) \<and>
   ((\<forall>b. i \<noteq> BoolV b) \<longrightarrow> LoadBool i = (False, Some (NotABool i))) \<and>
   ((\<forall>s. i \<noteq> StringV s) \<longrightarrow> LoadString i = ([], Some (NotAString i))) \<and>
   ((\<forall>n. i \<noteq> IntV n) \<longrightarrow> LoadInt i = (0, Some (NotAnInt i))) \<and>
   ((\<forall>x. i \<noteq> Float64V x) \<longrightarrow> LoadFloat i = (0, Some (NotAFloat i))) \<and>
   (TypeOf i \<noteq> Some (Basic Bool) \<longrightarrow> LoadBool i = (False, Some (NotABool i))) \<and>
   (TypeOf i \<noteq> Some (Basic String) \<longrightarrow> LoadString i = ([], Some (NotAString i))) \<and>
   (TypeOf i \<noteq> Some (Basic Int') \<longrightarrow> LoadInt i = (0, Some (NotAnInt i))) \<and>
   (TypeOf i \<noteq> Some (Basic Float64) \<longrightarrow> LoadFloat i = (0, Some (NotAFloat i))) \<and>
   LoadInt (Float64V x) = (0, Some (NotAnInt (Float64V x)))"
  by (cases i) (simp_all add: LoadBool_def LoadString_def LoadInt_def LoadFloat_def)

theorem builtin_converters_witness:
  "LoadInt (Float64V 1) = (0, Some (NotAnInt (Float64V 1))) \<and>
   LoadBool (IntV 1) = (False, Some (NotABool (IntV 1))) \<and>
   LoadString (StringV ''Joe'') = (''Joe'', None)"
  using builtin_converters [of True "''Joe''" 1 1 "IntV 1"] by simp

subsection \<open>C8: a field type without a wire type\<close>

text \<open>
  Claim C8, as amended. Let the input be no nil interface, and let \<open>T\<close> be its type, or
  the type its type points to. If \<open>T\<close> is no struct type, \<^verbatim>\<open>SafeArgsConfig\<close> returns the
  error "is not a struct". If it is one, \<^verbatim>\<open>SafeArgsConfig\<close> returns a schema and no error,
  whatever is registered; under the argument name of a field that no later field declares
  again, the schema has the wire type registered for the field's type, or the nil wire
  type when none is registered, and the field's description annotation.
\<close>

theorem schema_entry_without_wire_type:
  assumes "TypeOf i = Some t" and "(if Kind t = Ptr then Elem t else Some t) = Some T"
  shows "(Kind T \<noteq> Struct \<longrightarrow> SafeArgsConfig e i = Return (None, Some (NotAStruct i))) \<and>
         (Kind T = Struct \<longrightarrow>
            (\<exists>out. SafeArgsConfig e i = Return (Some out, None) \<and>
               (\<forall>pre f post n.
                   FieldsOf T = pre @ f # post \<and> Lookup (Tag f) argTag = Some n \<and>
                   (\<forall>g\<in>set post. Lookup (Tag g) argTag \<noteq> Some n) \<longrightarrow>
                   out n = Some \<lparr>ArgType = (case gqlTypes e (Type f) of None \<Rightarrow> None | Some g \<Rightarrow> g),
                                 Description = Get (Tag f) descTag\<rparr> \<and>
                   (gqlTypes e (Type f) = None \<longrightarrow>
                      out n = Some \<lparr>ArgType = None, Description = Get (Tag f) descTag\<rparr>))))"
proof (intro conjI impI)
  assume "Kind T \<noteq> Struct"
  with assms show "SafeArgsConfig e i = Return (None, Some (NotAStruct i))"
    by (auto simp: SafeArgsConfig_def split: if_splits)
next
  assume T: "Kind T = Struct"
  let ?out = "argsOfFields e (FieldsOf T) Map.empty"
  have "SafeArgsConfig e i = Return (Some ?out, None)"
    by (rule SafeArgsConfig_struct [OF assms T])
  moreover have "?out n = Some \<lparr>ArgType = (case gqlTypes e (Type f) of None \<Rightarrow> None | Some g \<Rightarrow> g),
                                 Description = Get (Tag f) descTag\<rparr> \<and>
                   (gqlTypes e (Type f) = None \<longrightarrow>
                      ?out n = Some \<lparr>ArgType = None, Description = Get (Tag f) descTag\<rparr>)"
    if "FieldsOf T = pre @ f # post \<and> Lookup (Tag f) argTag = Some n \<and>
                   (\<forall>g\<in>set post. Lookup (Tag g) argTag \<noteq> Some n)" for pre f post n
    using that by (simp add: argsOfFields_last del: argsOfFields.simps)
  ultimately show "\<exists>out. SafeArgsConfig e i = Return (Some out, None) \<and>
               (\<forall>pre f post n.
                   FieldsOf T = pre @ f # post \<and> Lookup (Tag f) argTag = Some n \<and>
                   (\<forall>g\<in>set post. Lookup (Tag g) argTag \<noteq> Some n) \<longrightarrow>
                   out n = Some \<lparr>ArgType = (case gqlTypes e (Type f) of None \<Rightarrow> None | Some g \<Rightarrow> g),
                                 Description = Get (Tag f) descTag\<rparr> \<and>
                   (gqlTypes e (Type f) = None \<longrightarrow>
                      out n = Some \<lparr>ArgType = None, Description = Get (Tag f) descTag\<rparr>))"
    by blast
qed

text \<open>
  The demonstration program's struct on an empty registry: the entry for \<^verbatim>\<open>name\<close> has
  the nil wire type and the description "Your name".
\<close>

theorem schema_entry_without_wire_type_witness:
  "\<exists>out. SafeArgsConfig Empty helloArgs_zero = Return (Some out, None) \<and>
         out ''name'' = Some \<lparr>ArgType = None, Description = ''Your name''\<rparr>"
proof -
  let ?f = "StructField ''Name'' [] (Basic String)
              [(''arg'', ''name''), (''required'', ''true''), (''desc'', ''Your name'')]"
  let ?g = "StructField ''Greeting'' [] (Basic String)
              [(''arg'', ''greeting''), (''desc'', ''How to say hello'')]"
  have t: "TypeOf helloArgs_zero = Some helloArgs" by (simp add: helloArgs_zero_def)
  have k: "(if Kind helloArgs = Ptr then Elem helloArgs else Some helloArgs) = Some helloArgs"
    by (simp add: helloArgs_def)
  from schema_entry_without_wire_type [OF t k, of Empty]
  obtain out where o: "SafeArgsConfig Empty helloArgs_zero = Return (Some out, None)"
    and all: "\<forall>pre f post n.
                   FieldsOf helloArgs = pre @ f # post \<and> Lookup (Tag f) argTag = Some n \<and>
                   (\<forall>g\<in>set post. Lookup (Tag g) argTag \<noteq> Some n) \<longrightarrow>
                   out n = Some \<lparr>ArgType = (case gqlTypes Empty (Type f) of None \<Rightarrow> None | Some g \<Rightarrow> g),
                                 Description = Get (Tag f) descTag\<rparr> \<and>
                   (gqlTypes Empty (Type f) = None \<longrightarrow>
                      out n = Some \<lparr>ArgType = None, Description = Get (Tag f) descTag\<rparr>)"
    by (auto simp: helloArgs_def)
  have "FieldsOf helloArgs = [] @ ?f # [?g] \<and> Lookup (Tag ?f) argTag = Some ''name'' \<and>
          (\<forall>g\<in>set [?g]. Lookup (Tag g) argTag \<noteq> Some ''name'')"
    by (simp add: run_defs)
  with all have "out ''name'' = Some \<lparr>ArgType = (case gqlTypes Empty (Type ?f) of None \<Rightarrow> None | Some g \<Rightarrow> g),
                                 Description = Get (Tag ?f) descTag\<rparr>"
    by blast
  then have "out ''name'' = Some \<lparr>ArgType = None, Description = ''Your name''\<rparr>"
    by (simp add: Empty_def Get_def Lookup_def descTag_def)
  with o show ?thesis by blast
qed

text \<open>
  C8 as stated fails twice. The nil interface is no struct, and \<^verbatim>\<open>SafeArgsConfig\<close>
  panics on it instead of returning an error. And of two fields that declare the argument
  name \<^verbatim>\<open>x\<close>, the first of a type \<^verbatim>\<open>int64\<close> that has no wire type, the schema keeps the
  entry of the second: under the first field's name stand a wire type and a description
  that are not the first field's.
\<close>

theorem schema_entry_without_wire_type_counterexample:
  "SafeArgsConfig defaultLoader NilV = Panic nilTypeKind \<and>
   SafeArgsConfig defaultLoader
     (StructV
        (StructOf NoErrorMethod [StructField ''A'' [] (Basic Int64) [(''arg'', ''x''), (''desc'', ''first'')],
                   StructField ''B'' [] (Basic String) [(''arg'', ''x''), (''desc'', ''second'')]])
        [Opaque (Basic Int64) 0, StringV []])
   = Return (Some [''x'' \<mapsto> \<lparr>ArgType = Some graphql_String, Description = ''second''\<rparr>], None)"
  by (simp add: run_defs defaultLoader_eq)

subsection \<open>C9: the nil interface\<close>

text \<open>
  Claim C9. On the nil interface \<^verbatim>\<open>SafeArgsConfig\<close> and \<^verbatim>\<open>LoadArgs\<close> panic, calling
  \<^verbatim>\<open>Kind()\<close> on the nil type; neither returns its "not a struct" or "not a pointer" error.
\<close>

theorem nil_interface_panics:
  "SafeArgsConfig e NilV = Panic nilTypeKind \<and> LoadArgs e args NilV = (NilV, Panic nilTypeKind)"
  by (simp add: SafeArgsConfig_def LoadArgs_def)

theorem nil_interface_panics_witness:
  "SafeArgsConfig defaultLoader NilV = Panic nilTypeKind \<and>
   LoadArgs defaultLoader Map.empty NilV = (NilV, Panic nilTypeKind)"
  using nil_interface_panics [of defaultLoader Map.empty] by simp

subsection \<open>C10: a failed registration changes nothing\<close>

text \<open>
  Claim C10. Whenever \<^verbatim>\<open>Register\<close> does not return nil (it returns one of its five errors,
  or panics on the nil interface), the registry after the call is the registry before it.
  When it returns nil, its argument is a function, the converter map had no entry for the
  function's first result type, and both maps have gained an entry under that one type:
  the wrapped function and the wire type given.
\<close>

theorem Register_failure_leaves_registry:
  assumes "Register e f gqlType = (e', r)"
  shows "(r \<noteq> Return None \<longrightarrow> e' = e) \<and>
         (r = Return None \<longrightarrow>
            (\<exists>g. f = Fn g \<and> loaderFuncs e (fout g ! 0) = None \<and>
                 loaderFuncs e' = (loaderFuncs e)(fout g ! 0 \<mapsto> wrapped g) \<and>
                 gqlTypes e' = (gqlTypes e)(fout g ! 0 \<mapsto> gqlType)))"
  using assms by (auto simp: Register_def split: callable.splits option.splits if_splits)

theorem Register_failure_leaves_registry_witness:
  "snd (Register defaultLoader (Fn LoadBool_func) None) \<noteq> Return None \<and>
   fst (Register defaultLoader (Fn LoadBool_func) None) = defaultLoader"
proof -
  have r: "snd (Register defaultLoader (Fn LoadBool_func) None) \<noteq> Return None"
    by (simp add: Register_def LoadBool_func_def errorType_def defaultLoader_Bool)
  have "Register defaultLoader (Fn LoadBool_func) None =
          (fst (Register defaultLoader (Fn LoadBool_func) None),
           snd (Register defaultLoader (Fn LoadBool_func) None))"
    by simp
  from Register_failure_leaves_registry [OF this] r show ?thesis by blast
qed

end
